theory Spec2Isabelle
  imports Main "HOL-Library.Word" "HOL-Library.Sublist"
begin

unbundle bit_operations_syntax

type_synonym byte = "8 word"

section \<open>The C library, as far as the probes use it\<close>

text \<open>
  A C string is the run of bytes in a buffer up to the first NUL byte. The string
  functions of the library see only that run.
\<close>

definition cstr :: "string \<Rightarrow> string" where
  "cstr buf = takeWhile (\<lambda>c. c \<noteq> CHR 0x00) buf"

text \<open>
  \<^verbatim>\<open>strstr(haystack, needle) != NULL\<close>: the needle occurs in the haystack at some
  position; the search tries each position from the left.
\<close>

fun strstr :: "string \<Rightarrow> string \<Rightarrow> bool" where
  "strstr [] needle = (needle = [])"
| "strstr (c # cs) needle = (prefix needle (c # cs) \<or> strstr cs needle)"

text \<open>\<^verbatim>\<open>strncmp(a, b, n) == 0\<close> on two C strings: they agree on their first \<open>n\<close> bytes.\<close>

definition strncmp_eq :: "string \<Rightarrow> string \<Rightarrow> nat \<Rightarrow> bool" where
  "strncmp_eq a b n = (take n a = take n b)"

definition isspace :: "char \<Rightarrow> bool" where
  "isspace c = (c \<in> set [CHR 0x20, CHR 0x09, CHR 0x0A, CHR 0x0B, CHR 0x0C, CHR 0x0D])"

definition isdigit :: "char \<Rightarrow> bool" where
  "isdigit c = (48 \<le> (of_char c :: nat) \<and> (of_char c :: nat) \<le> 57)"

definition digit_val :: "char \<Rightarrow> int" where
  "digit_val c = int (of_char c) - 48"

text \<open>
  The decimal digits at the head of a string, accumulated from the left: the number
  they denote.
\<close>

fun strtol_digits :: "int \<Rightarrow> string \<Rightarrow> int" where
  "strtol_digits acc [] = acc"
| "strtol_digits acc (c # cs) =
     (if isdigit c then strtol_digits (acc * 10 + digit_val c) cs else acc)"

text \<open>
  The integer a string denotes in decimal: leading white space, an optional sign, then
  digits; 0 when there are none.
\<close>

definition decimal_value :: "string \<Rightarrow> int" where
  "decimal_value s =
     (case dropWhile isspace s of
        [] \<Rightarrow> 0
      | c # cs \<Rightarrow>
          if c = CHR ''-'' then - strtol_digits 0 cs
          else if c = CHR ''+'' then strtol_digits 0 cs
          else strtol_digits 0 (c # cs))"

text \<open>
  \<^verbatim>\<open>strtol(s, NULL, 10)\<close> returns a \<open>long\<close>, 64 bits on the 64-bit Android ABIs: the
  value denoted, or \<open>LONG_MAX\<close> or \<open>LONG_MIN\<close> when that is out of range.
\<close>

definition LONG_MAX :: int where "LONG_MAX = 2 ^ 63 - 1"

definition LONG_MIN :: int where "LONG_MIN = - (2 ^ 63)"

definition strtol :: "string \<Rightarrow> int" where
  "strtol s = max LONG_MIN (min LONG_MAX (decimal_value s))"

text \<open>The conversion of a \<open>long\<close> to \<open>int\<close> keeps the low 32 bits, read as signed.\<close>

definition int_of_long :: "int \<Rightarrow> int" where
  "int_of_long x = sint (word_of_int x :: 32 word)"

text \<open>\<^verbatim>\<open>atoi(s)\<close> is \<^verbatim>\<open>(int) strtol(s, NULL, 10)\<close>.\<close>

definition atoi :: "string \<Rightarrow> int" where
  "atoi s = int_of_long (strtol s)"

text \<open>
  The conversion \<^verbatim>\<open>%d\<close> of \<open>sscanf\<close> reads the number as \<open>strtol\<close> does and stores it
  in an \<open>int\<close>, but it fails (nothing is stored) when no digit follows the optional
  sign.
\<close>

definition scan_int :: "string \<Rightarrow> int option" where
  "scan_int s =
     (case dropWhile isspace s of
        [] \<Rightarrow> None
      | c # cs \<Rightarrow>
          if c = CHR ''-'' \<or> c = CHR ''+''
          then (case cs of
                  [] \<Rightarrow> None
                | d # ds \<Rightarrow> if isdigit d then Some (int_of_long (strtol (c # cs))) else None)
          else if isdigit c then Some (int_of_long (strtol (c # cs)))
          else None)"

text \<open>
  \<^verbatim>\<open>sscanf(line, "TracerPid: %d", &pid)\<close>: the literal part of the format has to match
  the start of the line byte for byte, the blank matches any white space, then \<^verbatim>\<open>%d\<close>.
  \<open>None\<close> means that \<open>pid\<close> was not stored.
\<close>

definition sscanf_TracerPid :: "string \<Rightarrow> int option" where
  "sscanf_TracerPid line =
     (if take 10 line = ''TracerPid:'' then scan_int (dropWhile isspace (drop 10 line))
      else None)"

text \<open>
  \<^verbatim>\<open>fgets(line, bufsize, fp)\<close> stores at most \<open>bufsize - 1\<close> bytes and stops after a newline;
  \<open>fgets_room\<close> has the room left in the buffer as its first argument and returns the
  bytes stored together with the rest of the stream.
\<close>

fun fgets_room :: "nat \<Rightarrow> string \<Rightarrow> string \<times> string" where
  "fgets_room 0 cs = ([], cs)"
| "fgets_room (Suc k) [] = ([], [])"
| "fgets_room (Suc k) (c # cs) =
     (if c = CHR 0x0A then ([c], cs)
      else (case fgets_room k cs of (stored, rest) \<Rightarrow> (c # stored, rest)))"

definition fgets :: "nat \<Rightarrow> string \<Rightarrow> string \<times> string" where
  "fgets bufsize stream = fgets_room (bufsize - 1) stream"

lemma fgets_room_rest_length:
  "length (snd (fgets_room k cs)) \<le> length cs"
  by (induction k cs rule: fgets_room.induct) (auto split: prod.splits)

lemma fgets_room_progress:
  "0 < k \<Longrightarrow> cs \<noteq> [] \<Longrightarrow> length (snd (fgets_room k cs)) < length cs"
proof (cases k)
  case 0
  assume "0 < k" with 0 show ?thesis by simp
next
  case (Suc k')
  assume "cs \<noteq> []"
  then obtain c cs' where cs: "cs = c # cs'" by (cases cs) auto
  have "length (snd (fgets_room k' cs')) \<le> length cs'"
    by (rule fgets_room_rest_length)
  with Suc cs show ?thesis by (auto split: prod.splits)
qed

lemma fgets_progress:
  "(line, rest) = fgets bufsize stream \<Longrightarrow> stream \<noteq> [] \<Longrightarrow> \<not> bufsize \<le> Suc 0
     \<Longrightarrow> length rest < length stream"
  using fgets_room_progress [of "bufsize - 1" stream]
  by (cases "fgets_room (bufsize - 1) stream") (simp add: fgets_def)

text \<open>
  The lines a loop \<^verbatim>\<open>while (fgets(line, sizeof(line), fp))\<close> sees, in order: \<open>fgets\<close>
  returns \<open>NULL\<close> once the stream is exhausted. A line of the file longer than the
  buffer arrives in pieces of \<open>bufsize - 1\<close> bytes. (The buffers of this program hold 256
  and 1024 bytes; a buffer of one byte could store nothing and is not a case here.)
\<close>

function fgets_lines :: "nat \<Rightarrow> string \<Rightarrow> string list" where
  "fgets_lines bufsize stream =
     (if stream = [] \<or> bufsize \<le> 1 then []
      else (case fgets bufsize stream of
              (line, rest) \<Rightarrow> line # fgets_lines bufsize rest))"
  by pat_completeness auto
termination
  by (relation "measure (\<lambda>(bufsize, stream). length stream)")
     (auto intro: fgets_progress)

declare fgets_lines.simps [simp del]

section \<open>The process and its environment\<close>

type_synonym errno = nat

definition EPERM :: errno where "EPERM = 1"

definition SIGTRAP :: int where "SIGTRAP = 5"
definition SIGKILL :: int where "SIGKILL = 9"
definition SIGCONT :: int where "SIGCONT = 18"
definition SIGSTOP :: int where "SIGSTOP = 19"

text \<open>A system call returns 0, or -1 with \<open>errno\<close> set.\<close>

datatype sysret = Ok | Fail errno

datatype ptrace_request = PTRACE_TRACEME | PTRACE_DETACH

datatype handler = SIG_DFL | H_sigtrap_handler | H_sigstop_handler

text \<open>A call of the Android log: priority, format string and the arguments passed.\<close>

datatype priority = ANDROID_LOG_INFO | ANDROID_LOG_WARN | ANDROID_LOG_ERROR

datatype logarg = Str string | Num int | Strerror errno

type_synonym log_entry = "priority \<times> string \<times> logarg list"

text \<open>
  The state of the process that the module reads or changes: the two file-level flags
  of native-lib.cpp, what the kernel holds for the process (traced, dumpable, the signal
  dispositions, read-only regions), the log, the time slept, and two records kept for
  the statements below: the ptrace requests issued so far and the number of readings
  taken from the high-resolution clock.
\<close>

record proc =
  debugger_detected :: int
  timing_anomaly :: int
  traced :: bool
  dumpable :: bool
  handlers :: "int \<Rightarrow> handler"
  readonly_regions :: "(int \<times> int) list"
  slept_us :: int
  logcat :: "log_entry list"
  ptrace_calls :: "ptrace_request list"
  clock_reads :: nat

datatype fork_outcome = Forked nat | Fork_failed errno

text \<open>
  What the operating system answers during one call into the module: the contents of
  the three files under /proc (\<open>None\<close>: \<open>fopen\<close> fails), which paths \<open>access\<close> finds,
  the environment variables, the clocks (the k-th reading), the kernel's answers to
  \<open>ptrace\<close>, \<open>prctl\<close>, \<open>mprotect\<close>, \<open>fork\<close> and \<open>rand\<close>, the machine code at the
  entry of the two functions that inspect themselves (by offset), and the values an
  uninitialised local happens to hold.
\<close>

record world =
  status_file :: "string option"
  maps_file :: "string option"
  mounts_file :: "string option"
  access_ok :: "string \<Rightarrow> bool"
  getenv :: "string \<Rightarrow> string option"
  hr_clock :: "nat \<Rightarrow> int"
  monotonic :: "nat \<Rightarrow> int \<times> int"
  traceme_refusal :: "errno option"
  prctl_result :: sysret
  mprotect_result :: sysret
  fork_result :: fork_outcome
  rand_result :: int
  inline_hook_text :: "nat \<Rightarrow> byte"
  breakpoint_scan_text :: "nat \<Rightarrow> byte"
  uninit_pid :: "nat \<Rightarrow> int"

definition LOGI :: "string \<Rightarrow> logarg list \<Rightarrow> proc \<Rightarrow> proc" where
  "LOGI fmt args s = s\<lparr>logcat := logcat s @ [(ANDROID_LOG_INFO, fmt, args)]\<rparr>"

definition LOGW :: "string \<Rightarrow> logarg list \<Rightarrow> proc \<Rightarrow> proc" where
  "LOGW fmt args s = s\<lparr>logcat := logcat s @ [(ANDROID_LOG_WARN, fmt, args)]\<rparr>"

definition LOGE :: "string \<Rightarrow> logarg list \<Rightarrow> proc \<Rightarrow> proc" where
  "LOGE fmt args s = s\<lparr>logcat := logcat s @ [(ANDROID_LOG_ERROR, fmt, args)]\<rparr>"

subsection \<open>Kernel primitives\<close>

text \<open>
  The kernel is not part of the repository; its \<open>ptrace\<close> is taken as Linux documents
  it and as the spec describes it. \<^verbatim>\<open>ptrace(PTRACE_TRACEME, 0, 1, 0)\<close> fails with
  \<open>EPERM\<close> when a tracer is already attached, and puts the process in a traced state
  when it succeeds; the kernel may also refuse for a reason of its own
  (\<open>traceme_refusal\<close>). A failed request changes nothing.
\<close>

definition ptrace_traceme :: "world \<Rightarrow> proc \<Rightarrow> sysret \<times> proc" where
  "ptrace_traceme w s =
     (let s1 = s\<lparr>ptrace_calls := ptrace_calls s @ [PTRACE_TRACEME]\<rparr>
      in if traced s then (Fail EPERM, s1)
         else (case traceme_refusal w of
                 Some e \<Rightarrow> (Fail e, s1)
               | None \<Rightarrow> (Ok, s1\<lparr>traced := True\<rparr>)))"

text \<open>
  \<^verbatim>\<open>ptrace(PTRACE_DETACH, 0, 1, 0)\<close>: a detach is the request of a tracer about its
  tracee, named by the process id. The module makes it from the process that asked to
  be traced, with process id 0, which names no process: the kernel answers \<open>ESRCH\<close>
  and changes nothing. The module never looks at what the request returns.
\<close>

definition ptrace_detach :: "proc \<Rightarrow> proc" where
  "ptrace_detach s = s\<lparr>ptrace_calls := ptrace_calls s @ [PTRACE_DETACH]\<rparr>"

text \<open>\<^verbatim>\<open>prctl(PR_SET_DUMPABLE, 0)\<close>: the kernel's answer is the environment's.\<close>

definition prctl_set_dumpable_0 :: "world \<Rightarrow> proc \<Rightarrow> sysret \<times> proc" where
  "prctl_set_dumpable_0 w s =
     (case prctl_result w of
        Ok \<Rightarrow> (Ok, s\<lparr>dumpable := False\<rparr>)
      | Fail e \<Rightarrow> (Fail e, s))"

text \<open>
  \<^verbatim>\<open>signal(signum, handler)\<close>: the disposition is replaced, except for the two signals
  POSIX does not let a process catch.
\<close>

definition c_signal :: "int \<Rightarrow> handler \<Rightarrow> proc \<Rightarrow> proc" where
  "c_signal signum h s =
     (if signum = SIGKILL \<or> signum = SIGSTOP then s
      else s\<lparr>handlers := (handlers s)(signum := h)\<rparr>)"

section \<open>native-lib.cpp\<close>

text \<open>
  The JNI entry points \<^verbatim>\<open>Java_com.example.raspsdk_<Class>_<method>\<close> are named
  \<open><Class>_<method>\<close> here. Each takes the answers of the operating system for the call
  and the state of the process, and returns \<open>JNI_TRUE\<close>/\<open>JNI_FALSE\<close> as a \<open>bool\<close>
  with the state it leaves.
\<close>

subsection \<open>Signal handlers and the timing helper\<close>

definition sigtrap_handler :: "int \<Rightarrow> proc \<Rightarrow> proc" where
  "sigtrap_handler signum s =
     (if signum = SIGTRAP
      then LOGW ''SIGTRAP signal received - debugger detected'' [] (s\<lparr>debugger_detected := 1\<rparr>)
      else s)"

definition sigstop_handler :: "int \<Rightarrow> proc \<Rightarrow> proc" where
  "sigstop_handler signum s =
     (if signum = SIGSTOP \<or> signum = SIGCONT
      then LOGW ''Process manipulation signal received - debugger detected'' []
             (s\<lparr>debugger_detected := 1\<rparr>)
      else s)"

text \<open>\<^verbatim>\<open>ts.tv_sec * 1000000000LL + ts.tv_nsec\<close> of a reading \<open>(tv_sec, tv_nsec)\<close>.\<close>

definition get_time_ns :: "int \<times> int \<Rightarrow> int" where
  "get_time_ns ts = fst ts * 1000000000 + snd ts"

subsection \<open>DebuggerDetection\<close>

definition DebuggerDetection_nativePtraceCheck :: "world \<Rightarrow> proc \<Rightarrow> bool \<times> proc" where
  "DebuggerDetection_nativePtraceCheck w s =
     (case ptrace_traceme w s of
        (Fail e, s1) \<Rightarrow>
          if e = EPERM
          then (True, LOGW ''ptrace self-attach failed - debugger already attached'' [] s1)
          else (False, ptrace_detach s1)
      | (Ok, s1) \<Rightarrow> (False, ptrace_detach s1))"

definition DebuggerDetection_nativeSignalCheck :: "proc \<Rightarrow> bool \<times> proc" where
  "DebuggerDetection_nativeSignalCheck s =
     (let s1 = c_signal SIGTRAP H_sigtrap_handler s;
          s2 = c_signal SIGSTOP H_sigstop_handler s1;
          s3 = c_signal SIGCONT H_sigstop_handler s2
      in if debugger_detected s3 \<noteq> 0
         then (True, LOGW ''Debugger signal detected'' [] s3)
         else (False, s3))"

text \<open>
  Between the two readings the function sums \<open>i * i\<close> for \<open>i < 1000\<close> into a local it
  never reads again; only the two readings matter.
\<close>

definition DebuggerDetection_nativeTimingCheck :: "world \<Rightarrow> proc \<Rightarrow> bool \<times> proc" where
  "DebuggerDetection_nativeTimingCheck w s =
     (let start_time = get_time_ns (monotonic w 0);
          end_time = get_time_ns (monotonic w 1);
          duration = end_time - start_time
      in if duration > 1000000
         then (True, LOGW ''Timing check failed - execution too slow: %lld ns'' [Num duration] s)
         else (False, s))"

text \<open>The loop over /proc/self/status: it returns at the first line that starts with the key.\<close>

fun tracer_pid_loop :: "string list \<Rightarrow> proc \<Rightarrow> bool \<times> proc" where
  "tracer_pid_loop [] s = (False, s)"
| "tracer_pid_loop (line # rest) s =
     (if strncmp_eq (cstr line) ''TracerPid:'' 10
      then (let tracer_pid = atoi (drop 10 (cstr line))
            in if tracer_pid \<noteq> 0
               then (True, LOGW ''TracerPid is non-zero: %d'' [Num tracer_pid] s)
               else (False, s))
      else tracer_pid_loop rest s)"

definition DebuggerDetection_nativeDebuggerCheck :: "world \<Rightarrow> proc \<Rightarrow> bool \<times> proc" where
  "DebuggerDetection_nativeDebuggerCheck w s =
     (case status_file w of
        None \<Rightarrow> (False, s)
      | Some content \<Rightarrow> tracer_pid_loop (fgets_lines 256 content) s)"

subsection \<open>RootDetection\<close>

definition su_paths :: "string list" where
  "su_paths = [''/system/bin/su'', ''/system/xbin/su'', ''/system/sbin/su'',
               ''/vendor/bin/su'', ''/sbin/su'']"

fun su_loop :: "world \<Rightarrow> string list \<Rightarrow> string option" where
  "su_loop w [] = None"
| "su_loop w (path # rest) = (if access_ok w path then Some path else su_loop w rest)"

fun mounts_loop :: "string list \<Rightarrow> bool" where
  "mounts_loop [] = False"
| "mounts_loop (line # rest) =
     (if strstr (cstr line) ''/system'' \<and> strstr (cstr line) ''rw'' then True
      else mounts_loop rest)"

definition RootDetection_nativeRootCheck :: "world \<Rightarrow> proc \<Rightarrow> bool \<times> proc" where
  "RootDetection_nativeRootCheck w s =
     (case su_loop w su_paths of
        Some path \<Rightarrow> (True, LOGW ''SU binary found at: %s'' [Str path] s)
      | None \<Rightarrow>
          (case mounts_file w of
             None \<Rightarrow> (False, s)
           | Some content \<Rightarrow>
               if mounts_loop (fgets_lines 1024 content)
               then (True, LOGW ''System partition mounted as read-write'' [] s)
               else (False, s)))"

definition RootDetection_nativePropertyCheck :: "proc \<Rightarrow> bool \<times> proc" where
  "RootDetection_nativePropertyCheck s = (False, s)"

subsection \<open>HookDetection\<close>

definition suspicious_libs :: "string list" where
  "suspicious_libs = [''frida'', ''xposed'', ''substrate'', ''cydia'', ''libhook'']"

definition frida_indicators :: "string list" where
  "frida_indicators = [''frida-gadget'', ''frida-agent'', ''frida-core'', ''libfrida'']"

text \<open>The inner loop over the table, for one line: the first entry the line contains.\<close>

fun first_lib :: "string \<Rightarrow> string list \<Rightarrow> string option" where
  "first_lib line [] = None"
| "first_lib line (lib # libs) =
     (if strstr (cstr line) lib then Some lib else first_lib line libs)"

text \<open>The outer loop over the lines: it stops at the first line with a match.\<close>

fun libs_loop :: "string list \<Rightarrow> string list \<Rightarrow> string option" where
  "libs_loop libs [] = None"
| "libs_loop libs (line # rest) =
     (case first_lib line libs of
        Some lib \<Rightarrow> Some lib
      | None \<Rightarrow> libs_loop libs rest)"

definition HookDetection_nativeHookCheck :: "world \<Rightarrow> proc \<Rightarrow> bool \<times> proc" where
  "HookDetection_nativeHookCheck w s =
     (case maps_file w of
        None \<Rightarrow> (False, s)
      | Some content \<Rightarrow>
          (case libs_loop suspicious_libs (fgets_lines 1024 content) of
             Some lib \<Rightarrow> (True, LOGW ''Suspicious library detected in memory: %s'' [Str lib] s)
           | None \<Rightarrow> (False, s)))"

definition HookDetection_Companion_nativeFridaCheck :: "world \<Rightarrow> proc \<Rightarrow> bool \<times> proc" where
  "HookDetection_Companion_nativeFridaCheck w s =
     (case maps_file w of
        None \<Rightarrow> (False, s)
      | Some content \<Rightarrow>
          (case libs_loop frida_indicators (fgets_lines 1024 content) of
             Some lib \<Rightarrow> (True, LOGW ''Frida indicator detected: %s'' [Str lib] s)
           | None \<Rightarrow> (False, s)))"

definition HookDetection_Companion_nativeHookCheck :: "world \<Rightarrow> proc \<Rightarrow> bool \<times> proc" where
  "HookDetection_Companion_nativeHookCheck w s = HookDetection_nativeHookCheck w s"

text \<open>
  A \<open>uint32_t\<close> read through a pointer into the code: four bytes, least significant
  first (every Android ABI is little-endian).
\<close>

definition load32 :: "(nat \<Rightarrow> byte) \<Rightarrow> nat \<Rightarrow> 32 word" where
  "load32 memory i =
     ucast (memory i) OR push_bit 8 (ucast (memory (i + 1)))
       OR push_bit 16 (ucast (memory (i + 2))) OR push_bit 24 (ucast (memory (i + 3)))"

definition HookDetection_nativeInlineHookCheck :: "world \<Rightarrow> proc \<Rightarrow> bool \<times> proc" where
  "HookDetection_nativeInlineHookCheck w s =
     (let bytes = inline_hook_text w
      in if bytes 0 = 0xE9 \<or> bytes 0 = 0x68
         then (True, LOGW ''Possible inline hook detected (x86)'' [] s)
         else if load32 bytes 0 = 0xE51FF004
         then (True, LOGW ''Possible inline hook detected (ARM)'' [] s)
         else (False, s))"

definition HookDetection_Companion_nativeInlineHookCheck :: "world \<Rightarrow> proc \<Rightarrow> bool \<times> proc" where
  "HookDetection_Companion_nativeInlineHookCheck w s = HookDetection_nativeInlineHookCheck w s"

definition HookDetection_nativeFridaCheck :: "world \<Rightarrow> proc \<Rightarrow> bool \<times> proc" where
  "HookDetection_nativeFridaCheck w s = HookDetection_Companion_nativeFridaCheck w s"

subsection \<open>TamperDetection\<close>

text \<open>
  The loop over /proc/self/maps with its two counters. (The counters are \<open>int\<close>s; a
  listing would need more than \<open>2^31\<close> lines to overflow them.)
\<close>

fun maps_loop :: "string list \<Rightarrow> int \<Rightarrow> int \<Rightarrow> proc \<Rightarrow> int \<times> int \<times> proc" where
  "maps_loop [] executable_count writable_executable_count s =
     (executable_count, writable_executable_count, s)"
| "maps_loop (line # rest) executable_count writable_executable_count s =
     (if strstr (cstr line) ''r-xp'' \<or> strstr (cstr line) ''rwxp''
      then (if strstr (cstr line) ''rwxp''
            then maps_loop rest (executable_count + 1) (writable_executable_count + 1)
                   (LOGW ''Writable+Executable memory region detected: %s'' [Str (cstr line)] s)
            else maps_loop rest (executable_count + 1) writable_executable_count s)
      else maps_loop rest executable_count writable_executable_count s)"

definition TamperDetection_nativeMemoryCheck :: "world \<Rightarrow> proc \<Rightarrow> bool \<times> proc" where
  "TamperDetection_nativeMemoryCheck w s =
     (case maps_file w of
        None \<Rightarrow> (False, s)
      | Some content \<Rightarrow>
          (case maps_loop (fgets_lines 1024 content) 0 0 s of
             (executable_count, writable_executable_count, s1) \<Rightarrow>
               if writable_executable_count > 5
               then (True, LOGW ''Too many writable+executable regions: %d''
                             [Num writable_executable_count] s1)
               else (False, s1)))"

definition TamperDetection_nativeIntegrityCheck :: "world \<Rightarrow> proc \<Rightarrow> bool \<times> proc" where
  "TamperDetection_nativeIntegrityCheck w s =
     (case prctl_set_dumpable_0 w s of
        (Fail e, s1) \<Rightarrow> (True, LOGW ''Failed to disable core dumps'' [] s1)
      | (Ok, s1) \<Rightarrow> (False, s1))"

datatype scan_hit = INT3 nat | ARM_BKPT nat

text \<open>
  \<^verbatim>\<open>for (size_t i = 0; i < scan_size; i++)\<close> over the code at the function's own
  address; the result is the first hit, if any.
\<close>

function breakpoint_loop :: "(nat \<Rightarrow> byte) \<Rightarrow> nat \<Rightarrow> nat \<Rightarrow> scan_hit option" where
  "breakpoint_loop memory scan_size i =
     (if i < scan_size
      then (if memory i = 0xCC then Some (INT3 i)
            else if i < scan_size - 3 \<and> load32 memory i AND 0xFFF000F0 = 0xE1200070
            then Some (ARM_BKPT i)
            else breakpoint_loop memory scan_size (Suc i))
      else None)"
  by pat_completeness auto
termination
  by (relation "measure (\<lambda>(memory, scan_size, i). scan_size - i)") auto

declare breakpoint_loop.simps [simp del]

definition TamperDetection_nativeBreakpointScan :: "world \<Rightarrow> proc \<Rightarrow> bool \<times> proc" where
  "TamperDetection_nativeBreakpointScan w s =
     (case breakpoint_loop (breakpoint_scan_text w) 4096 0 of
        Some (INT3 i) \<Rightarrow>
          (True, LOGW ''x86 breakpoint instruction (INT3) detected at offset %zu'' [Num (int i)] s)
      | Some (ARM_BKPT i) \<Rightarrow>
          (True, LOGW ''ARM breakpoint instruction detected at offset %zu'' [Num (int i)] s)
      | None \<Rightarrow> (False, s))"

subsection \<open>RASP: hardening actions\<close>

definition RASP_nativeHardenSystem :: "world \<Rightarrow> proc \<Rightarrow> bool \<times> proc" where
  "RASP_nativeHardenSystem w s =
     (case prctl_set_dumpable_0 w s of
        (Fail e, s1) \<Rightarrow> (False, LOGW ''Failed to disable core dumps: %s'' [Strerror e] s1)
      | (Ok, s1) \<Rightarrow>
          (case ptrace_traceme w s1 of
             (Fail e, s2) \<Rightarrow>
               if e = EPERM
               then (False, LOGW ''Already being traced - debugger detected'' [] s2)
               else (True, LOGI ''System hardening applied successfully'' [] s2)
           | (Ok, s2) \<Rightarrow> (True, LOGI ''System hardening applied successfully'' [] s2)))"

definition RASP_nativeProtectMemory :: "world \<Rightarrow> int \<Rightarrow> int \<Rightarrow> proc \<Rightarrow> bool \<times> proc" where
  "RASP_nativeProtectMemory w addr len s =
     (case mprotect_result w of
        Fail e \<Rightarrow> (False, LOGE ''Failed to protect memory region: %s'' [Strerror e] s)
      | Ok \<Rightarrow> (True, s\<lparr>readonly_regions := readonly_regions s @ [(addr, len)]\<rparr>))"

text \<open>\<^verbatim>\<open>rand()\<close> is not negative, so C's \<open>%\<close> is \<open>mod\<close> here.\<close>

definition RASP_nativeRandomDelay :: "world \<Rightarrow> proc \<Rightarrow> proc" where
  "RASP_nativeRandomDelay w s =
     (let delay_ms = rand_result w mod 100 + 1
      in s\<lparr>slept_us := slept_us s + delay_ms * 1000\<rparr>)"

text \<open>The child of the fork leaves at once through \<open>_exit\<close>; this is the parent.\<close>

definition RASP_nativeAntiFork :: "world \<Rightarrow> proc \<Rightarrow> bool \<times> proc" where
  "RASP_nativeAntiFork w s =
     (case fork_result w of
        Forked pid \<Rightarrow> (True, s)
      | Fork_failed e \<Rightarrow> (False, LOGE ''Fork failed: %s'' [Strerror e] s))"

subsection \<open>Every function of the file as one step of the process\<close>

text \<open>
  \<open>debugger_detected\<close> is a \<open>static\<close> of native-lib.cpp: the functions of this file are
  the only code that can name it. The two handlers are entered by the kernel, with the
  number of the signal delivered; the others are called by the host.
\<close>

datatype operation =
    Op_sigtrap_handler int
  | Op_sigstop_handler int
  | Op_nativePtraceCheck
  | Op_nativeSignalCheck
  | Op_nativeTimingCheck
  | Op_nativeDebuggerCheck
  | Op_nativeRootCheck
  | Op_nativePropertyCheck
  | Op_nativeHookCheck
  | Op_Companion_nativeFridaCheck
  | Op_Companion_nativeHookCheck
  | Op_Companion_nativeInlineHookCheck
  | Op_nativeFridaCheck
  | Op_nativeInlineHookCheck
  | Op_nativeMemoryCheck
  | Op_nativeIntegrityCheck
  | Op_nativeBreakpointScan
  | Op_nativeHardenSystem
  | Op_nativeProtectMemory int int
  | Op_nativeRandomDelay
  | Op_nativeAntiFork

fun exec :: "world \<Rightarrow> operation \<Rightarrow> proc \<Rightarrow> proc" where
  "exec w (Op_sigtrap_handler signum) s = sigtrap_handler signum s"
| "exec w (Op_sigstop_handler signum) s = sigstop_handler signum s"
| "exec w Op_nativePtraceCheck s = snd (DebuggerDetection_nativePtraceCheck w s)"
| "exec w Op_nativeSignalCheck s = snd (DebuggerDetection_nativeSignalCheck s)"
| "exec w Op_nativeTimingCheck s = snd (DebuggerDetection_nativeTimingCheck w s)"
| "exec w Op_nativeDebuggerCheck s = snd (DebuggerDetection_nativeDebuggerCheck w s)"
| "exec w Op_nativeRootCheck s = snd (RootDetection_nativeRootCheck w s)"
| "exec w Op_nativePropertyCheck s = snd (RootDetection_nativePropertyCheck s)"
| "exec w Op_nativeHookCheck s = snd (HookDetection_nativeHookCheck w s)"
| "exec w Op_Companion_nativeFridaCheck s = snd (HookDetection_Companion_nativeFridaCheck w s)"
| "exec w Op_Companion_nativeHookCheck s = snd (HookDetection_Companion_nativeHookCheck w s)"
| "exec w Op_Companion_nativeInlineHookCheck s =
     snd (HookDetection_Companion_nativeInlineHookCheck w s)"
| "exec w Op_nativeFridaCheck s = snd (HookDetection_nativeFridaCheck w s)"
| "exec w Op_nativeInlineHookCheck s = snd (HookDetection_nativeInlineHookCheck w s)"
| "exec w Op_nativeMemoryCheck s = snd (TamperDetection_nativeMemoryCheck w s)"
| "exec w Op_nativeIntegrityCheck s = snd (TamperDetection_nativeIntegrityCheck w s)"
| "exec w Op_nativeBreakpointScan s = snd (TamperDetection_nativeBreakpointScan w s)"
| "exec w Op_nativeHardenSystem s = snd (RASP_nativeHardenSystem w s)"
| "exec w (Op_nativeProtectMemory addr len) s = snd (RASP_nativeProtectMemory w addr len s)"
| "exec w Op_nativeRandomDelay s = RASP_nativeRandomDelay w s"
| "exec w Op_nativeAntiFork s = snd (RASP_nativeAntiFork w s)"

text \<open>A run: the steps in order, each with the environment it met.\<close>

fun run :: "(world \<times> operation) list \<Rightarrow> proc \<Rightarrow> proc" where
  "run [] s = s"
| "run ((w, op) # rest) s = run rest (exec w op s)"

text \<open>The steps that store into the flag: a handler entered with a signal it acts on.\<close>

fun sets_flag :: "operation \<Rightarrow> bool" where
  "sets_flag (Op_sigtrap_handler signum) = (signum = SIGTRAP)"
| "sets_flag (Op_sigstop_handler signum) = (signum = SIGSTOP \<or> signum = SIGCONT)"
| "sets_flag _ = False"

section \<open>Obfuscated debugger check (native-obfuscator.cpp)\<close>

text \<open>
  \<^verbatim>\<open>std::chrono::high_resolution_clock::now().time_since_epoch().count()\<close>: the next
  reading of the clock, a signed 64-bit count.
\<close>

definition now_count :: "world \<Rightarrow> proc \<Rightarrow> int \<times> proc" where
  "now_count w s = (hr_clock w (clock_reads s), s\<lparr>clock_reads := Suc (clock_reads s)\<rparr>)"

definition opaque_true :: "world \<Rightarrow> proc \<Rightarrow> bool \<times> proc" where
  "opaque_true w s = (case now_count w s of (now, s1) \<Rightarrow> (now > 0 \<or> now \<le> 0, s1))"

definition opaque_false :: "world \<Rightarrow> proc \<Rightarrow> bool \<times> proc" where
  "opaque_false w s = (case now_count w s of (now, s1) \<Rightarrow> (now < 0, s1))"

text \<open>
  The block guarded by \<open>opaque_false\<close> fills and clears a vector local to the function;
  whether it runs or not, nothing outside the function changes.
\<close>

definition inject_dead_code :: "world \<Rightarrow> proc \<Rightarrow> proc" where
  "inject_dead_code w s = (case opaque_false w s of (dead, s1) \<Rightarrow> if dead then s1 else s1)"

text \<open>
  The guarded block of \<open>scramble_memory\<close> reseeds the class's private generator from
  one more reading of the clock and fills a local vector; no other code reads the
  generator.
\<close>

definition NativeStringEncryptor_scramble_memory :: "world \<Rightarrow> proc \<Rightarrow> proc" where
  "NativeStringEncryptor_scramble_memory w s =
     (case opaque_false w s of
        (dead, s1) \<Rightarrow> if dead then (case now_count w s1 of (seed, s2) \<Rightarrow> s2) else s1)"

text \<open>C's \<open>%\<close> truncates towards zero: the remainder has the sign of the dividend.\<close>

definition c_rem :: "int \<Rightarrow> int \<Rightarrow> int" where
  "c_rem a b = sgn a * (\<bar>a\<bar> mod \<bar>b\<bar>)"

text \<open>
  The loop of \<open>case 1\<close> over /proc/self/status. \<open>pid\<close> is declared without a value in
  the body; when \<open>sscanf\<close> stores nothing the test reads what the slot happens to hold,
  \<open>junk k\<close> at the k-th line.
\<close>

fun obf_status_loop :: "(nat \<Rightarrow> int) \<Rightarrow> nat \<Rightarrow> string list \<Rightarrow> bool" where
  "obf_status_loop junk k [] = False"
| "obf_status_loop junk k (line # rest) =
     (if strstr (cstr line) ''TracerPid:''
      then (let pid = (case sscanf_TracerPid (cstr line) of Some v \<Rightarrow> v | None \<Rightarrow> junk k)
            in if pid \<noteq> 0 then True else obf_status_loop junk (Suc k) rest)
      else obf_status_loop junk (Suc k) rest)"

text \<open>\<open>case 0\<close>: the trace-self request, then the detach, whatever the request returned.\<close>

definition obf_case_0 :: "world \<Rightarrow> proc \<Rightarrow> bool \<times> proc" where
  "obf_case_0 w s =
     (case opaque_true w s of (t, s1) \<Rightarrow>
        (case (if t then (case ptrace_traceme w s1 of (r, s2) \<Rightarrow> (r \<noteq> Ok, ptrace_detach s2))
               else (False, s1)) of
           (result, s3) \<Rightarrow> (result, inject_dead_code w s3)))"

definition obf_case_1 :: "world \<Rightarrow> proc \<Rightarrow> bool \<times> proc" where
  "obf_case_1 w s =
     (case opaque_true w s of (t, s1) \<Rightarrow>
        (let result = (if t then (case status_file w of
                                    None \<Rightarrow> False
                                  | Some content \<Rightarrow>
                                      obf_status_loop (uninit_pid w) 0 (fgets_lines 256 content))
                       else False)
         in (result, inject_dead_code w s1)))"

definition obf_default :: "world \<Rightarrow> proc \<Rightarrow> bool \<times> proc" where
  "obf_default w s =
     (case opaque_true w s of (t, s1) \<Rightarrow>
        (let result = (if t then getenv w ''DEBUG'' \<noteq> None \<or> getenv w ''ANDROID_DEBUG'' \<noteq> None
                       else False)
         in (result, inject_dead_code w s1)))"

definition check_debugger_obfuscated :: "world \<Rightarrow> proc \<Rightarrow> bool \<times> proc" where
  "check_debugger_obfuscated w s =
     (let s1 = inject_dead_code w s
      in case now_count w s1 of (count, s2) \<Rightarrow>
           (let branch = c_rem count 3
            in case (if branch = 0 then obf_case_0 w s2
                     else if branch = 1 then obf_case_1 w s2
                     else obf_default w s2) of
                 (result, s3) \<Rightarrow> (result, inject_dead_code w s3)))"

text \<open>\<^verbatim>\<open>Java_com.example.raspsdk_NativeObfuscator_a\<close>.\<close>

definition NativeObfuscator_a :: "world \<Rightarrow> proc \<Rightarrow> bool \<times> proc" where
  "NativeObfuscator_a w s =
     (let s1 = inject_dead_code w s;
          s2 = NativeStringEncryptor_scramble_memory w s1
      in case opaque_true w s2 of (t, s3) \<Rightarrow>
           (case (if t
                  then (case check_debugger_obfuscated w s3 of (result, s4) \<Rightarrow>
                          if result
                          then (case opaque_true w s4 of (t2, s5) \<Rightarrow>
                                  if t2
                                  then (case opaque_false w s5 of (f, s6) \<Rightarrow> (\<not> f, s6))
                                  else (result, s5))
                          else (result, s4))
                  else (False, s3)) of
              (result, s7) \<Rightarrow> (result, inject_dead_code w s7)))"

section \<open>Reversible string scrambling (native-obfuscator.cpp)\<close>

text \<open>
  \<^verbatim>\<open>static const uint8_t XOR_KEY[] = {0xAB, 0xCD, 0xEF, 0x12, 0x34, 0x56, 0x78, 0x9A};\<close>
  \<^verbatim>\<open>static const size_t XOR_KEY_LEN = sizeof(XOR_KEY);\<close>
\<close>

definition XOR_KEY :: "byte list" where
  "XOR_KEY = [0xAB, 0xCD, 0xEF, 0x12, 0x34, 0x56, 0x78, 0x9A]"

definition XOR_KEY_LEN :: nat where
  "XOR_KEY_LEN = length XOR_KEY"

text \<open>
  \<^verbatim>\<open>uint8_t key_byte = XOR_KEY[i % XOR_KEY_LEN] ^ ((seed + i) & 0xFF);\<close>
  The seed is a \<open>uint32_t\<close>, the index a \<open>size_t\<close>: the sum is formed in \<open>size_t\<close>
  (64 bits on the 64-bit Android ABIs), masked to its low byte, combined with the key
  byte and narrowed to \<open>uint8_t\<close> by the initialisation.
\<close>

definition key_byte :: "32 word \<Rightarrow> nat \<Rightarrow> byte" where
  "key_byte seed i =
     ucast ((ucast (XOR_KEY ! (i mod XOR_KEY_LEN)) :: 64 word)
            XOR (((ucast seed :: 64 word) + word_of_nat i) AND 0xFF))"

text \<open>
  The loop \<^verbatim>\<open>for (size_t i = 0; i < len; ++i) result.push_back(encrypted[i] ^ key_byte);\<close>
  over the \<open>len\<close> bytes at \<open>encrypted\<close>, with the index and the result as loop state.
\<close>

function decrypt_loop :: "byte list \<Rightarrow> 32 word \<Rightarrow> nat \<Rightarrow> byte list \<Rightarrow> byte list" where
  "decrypt_loop encrypted seed i result =
     (if i < length encrypted
      then decrypt_loop encrypted seed (Suc i) (result @ [encrypted ! i XOR key_byte seed i])
      else result)"
  by pat_completeness auto
termination
  by (relation "measure (\<lambda>(encrypted, seed, i, result). length encrypted - i)") auto

declare decrypt_loop.simps [simp del]

definition decrypt_string :: "byte list \<Rightarrow> 32 word \<Rightarrow> byte list" where
  "decrypt_string encrypted seed = decrypt_loop encrypted seed 0 []"

section \<open>The words of the specification\<close>

text \<open>
  The lines of a text file: each ends with its newline, the last one possibly without.
\<close>

fun text_lines :: "string \<Rightarrow> string list" where
  "text_lines [] = []"
| "text_lines (c # cs) =
     (if c = CHR 0x0A then [c] # text_lines cs
      else (case text_lines cs of [] \<Rightarrow> [[c]] | l # ls \<Rightarrow> (c # l) # ls))"

text \<open>
  A file fits a line buffer when each of its lines, newline included, is shorter than
  the buffer. (A file that cannot be opened has no lines.)
\<close>

definition lines_fit :: "nat \<Rightarrow> string option \<Rightarrow> bool" where
  "lines_fit bufsize file =
     (case file of
        None \<Rightarrow> True
      | Some content \<Rightarrow> list_all (\<lambda>line. length line < bufsize) (text_lines content))"

text \<open>
  The fields of a text: the runs of bytes between the occurrences of a separator. The
  lines of the files under /proc separate their fields with blanks; \<open>field i\<close> is the
  i-th field of a line, counted from 0, and empty when the line has fewer. (A line is
  read as a C string, like everywhere else.)
\<close>

fun split_on :: "char \<Rightarrow> string \<Rightarrow> string list" where
  "split_on sep [] = [[]]"
| "split_on sep (c # cs) =
     (if c = sep then [] # split_on sep cs
      else (case split_on sep cs of [] \<Rightarrow> [[c]] | f # fs \<Rightarrow> (c # f) # fs))"

definition fields :: "string \<Rightarrow> string list" where
  "fields line = split_on (CHR 0x20) (cstr line)"

definition field :: "nat \<Rightarrow> string \<Rightarrow> string" where
  "field i line = (if i < length (fields line) then fields line ! i else [])"

text \<open>A text occurs in a line in no field other than the i-th.\<close>

definition confined_to_field :: "string \<Rightarrow> nat \<Rightarrow> string \<Rightarrow> bool" where
  "confined_to_field pat i line =
     list_all (\<lambda>(j, f). sublist pat f \<longrightarrow> j = i) (enumerate 0 (fields line))"

subsection \<open>The status record\<close>

text \<open>
  The TracerPid field of a status record: the text after the key on the first line that
  starts with the key.
\<close>

definition tracer_pid_field :: "string \<Rightarrow> string option" where
  "tracer_pid_field content =
     map_option (\<lambda>line. drop 10 (cstr line))
       (find (\<lambda>line. prefix ''TracerPid:'' (cstr line)) (text_lines content))"

text \<open>An integer in the range of a 32-bit \<open>int\<close>.\<close>

definition fits_int :: "int \<Rightarrow> bool" where
  "fits_int v \<longleftrightarrow> - (2 ^ 31) \<le> v \<and> v < 2 ^ 31"

text \<open>The number in the TracerPid field of a status record, if it has one, fits an \<open>int\<close>.\<close>

definition tracer_pid_fits_int :: "string option \<Rightarrow> bool" where
  "tracer_pid_fits_int file =
     (case file of
        None \<Rightarrow> True
      | Some content \<Rightarrow>
          (case tracer_pid_field content of
             None \<Rightarrow> True
           | Some v \<Rightarrow> fits_int (decimal_value v)))"

subsection \<open>The mount table\<close>







subsection \<open>The memory-map listing\<close>

text \<open>
  A line of the listing reads \<open>address perms offset device inode path\<close>; the
  permission field holds four flags: read, write, execute, and private or shared. The
  line is marked writable and executable when the second and the third flag are set.
\<close>

definition permission_field :: "string \<Rightarrow> string" where
  "permission_field line = field 1 line"

definition marked_writable_executable :: "string \<Rightarrow> bool" where
  "marked_writable_executable line \<longleftrightarrow>
     length (permission_field line) = 4
     \<and> permission_field line ! 1 = CHR ''w'' \<and> permission_field line ! 2 = CHR ''x''"

definition writable_executable_lines :: "string \<Rightarrow> nat" where
  "writable_executable_lines content =
     length (filter marked_writable_executable (text_lines content))"

text \<open>
  A plain line of the listing: it has a permission field of four flags, the text
  \<open>rwxp\<close> occurs in it nowhere but in that field, and when it is marked writable and
  executable it is also readable and private.
\<close>

definition plain_maps_line :: "string \<Rightarrow> bool" where
  "plain_maps_line line \<longleftrightarrow>
     length (permission_field line) = 4
     \<and> confined_to_field ''rwxp'' 1 line
     \<and> (marked_writable_executable line \<longrightarrow>
          permission_field line ! 0 = CHR ''r'' \<and> permission_field line ! 3 = CHR ''p'')"

definition plain_maps :: "string option \<Rightarrow> bool" where
  "plain_maps file =
     (case file of
        None \<Rightarrow> True
      | Some content \<Rightarrow> list_all plain_maps_line (text_lines content))"

subsection \<open>The code window and the obfuscated check\<close>

text \<open>What the breakpoint scan looks for at offset \<open>j\<close> of a window of \<open>scan_size\<close> bytes.\<close>

definition breakpoint_at :: "(nat \<Rightarrow> byte) \<Rightarrow> nat \<Rightarrow> nat \<Rightarrow> bool" where
  "breakpoint_at memory scan_size j \<longleftrightarrow>
     memory j = 0xCC \<or> (j < scan_size - 3 \<and> load32 memory j AND 0xFFF000F0 = 0xE1200070)"

text \<open>
  The branch selector of the obfuscated check entered in state \<open>s\<close>: the second reading
  of the clock from there, modulo 3.
\<close>

definition branch_selector :: "world \<Rightarrow> proc \<Rightarrow> int" where
  "branch_selector w s = c_rem (hr_clock w (Suc (clock_reads s))) 3"

text \<open>
  Two runs meet the same environment state: the same status file, the same environment
  variables, and the same outcome of a trace-self request (the process is traced or not
  in both, and the kernel refuses or grants in both).
\<close>

definition same_environment :: "world \<Rightarrow> proc \<Rightarrow> world \<Rightarrow> proc \<Rightarrow> bool" where
  "same_environment w s w' s' \<longleftrightarrow>
     status_file w = status_file w' \<and> getenv w = getenv w'
     \<and> traceme_refusal w = traceme_refusal w' \<and> traced s = traced s'"

text \<open>
  Every line read from the status file that holds the key \<open>TracerPid:\<close> starts with
  it and has an integer after it, so that \<open>sscanf\<close> stores a value.
\<close>

definition tracer_lines_scan :: "string option \<Rightarrow> bool" where
  "tracer_lines_scan file =
     (case file of
        None \<Rightarrow> True
      | Some content \<Rightarrow>
          list_all (\<lambda>line. strstr (cstr line) ''TracerPid:'' \<longrightarrow> sscanf_TracerPid (cstr line) \<noteq> None)
            (fgets_lines 256 content))"

subsection \<open>Concrete inputs\<close>

text \<open>A device on which nothing is suspicious, and a process that has just started.\<close>

definition quiet_status :: string where
  "quiet_status = ''Name:'' @ [CHR 0x09] @ ''app'' @ [CHR 0x0A]
                  @ ''TracerPid:'' @ [CHR 0x09] @ ''0'' @ [CHR 0x0A]"

definition quiet_world :: world where
  "quiet_world =
     \<lparr>status_file = Some quiet_status,
      maps_file = Some [],
      mounts_file = Some [],
      access_ok = (\<lambda>path. False),
      getenv = (\<lambda>name. None),
      hr_clock = (\<lambda>k. 0),
      monotonic = (\<lambda>k. (0, 0)),
      traceme_refusal = None,
      prctl_result = Ok,
      mprotect_result = Ok,
      fork_result = Forked 4242,
      rand_result = 0,
      inline_hook_text = (\<lambda>i. 0),
      breakpoint_scan_text = (\<lambda>i. 0),
      uninit_pid = (\<lambda>k. 0)\<rparr>"

definition fresh_proc :: proc where
  "fresh_proc =
     \<lparr>debugger_detected = 0, timing_anomaly = 0, traced = False, dumpable = True,
      handlers = (\<lambda>signum. SIG_DFL), readonly_regions = [], slept_us = 0, logcat = [],
      ptrace_calls = [], clock_reads = 0\<rparr>"

text \<open>A status record of a process with tracer 1234.\<close>

definition traced_status :: string where
  "traced_status = ''Name:'' @ [CHR 0x09] @ ''app'' @ [CHR 0x0A]
                   @ ''TracerPid:'' @ [CHR 0x09] @ ''1234'' @ [CHR 0x0A]"

text \<open>A status record without the field.\<close>

definition no_tracer_status :: string where
  "no_tracer_status = ''Name:'' @ [CHR 0x09] @ ''app'' @ [CHR 0x0A]"

text \<open>Memory-map listings with five and with six writable and executable regions.\<close>

definition rwx_line :: string where
  "rwx_line = ''7f00a000-7f00b000 rwxp 00000000 00:00 0'' @ [CHR 0x0A]"

definition maps_5_rwx :: string where
  "maps_5_rwx = concat (replicate 5 rwx_line)"

definition maps_6_rwx :: string where
  "maps_6_rwx = concat (replicate 6 rwx_line)"

text \<open>A memory-map listing with an instrumentation agent mapped.\<close>

definition frida_maps :: string where
  "frida_maps =
     ''7f00a000-7f00b000 r-xp 00000000 fd:00 42 /data/local/tmp/frida-agent-64.so''
       @ [CHR 0x0A]"


text \<open>
  A status record whose TracerPid value is padded with 245 blanks: key and blanks fill
  the 255 bytes that fit the buffer, the digit comes after them.
\<close>

definition padded_tracer_head :: string where
  "padded_tracer_head = ''TracerPid:'' @ replicate 245 (CHR 0x20)"

definition padded_tracer_status :: string where
  "padded_tracer_status = padded_tracer_head @ ''5'' @ [CHR 0x0A]"

text \<open>A status record whose TracerPid value is \<open>2^32\<close>, one more than 32 bits hold.\<close>

definition wide_tracer_status :: string where
  "wide_tracer_status = ''TracerPid:'' @ [CHR 0x09] @ ''4294967296'' @ [CHR 0x0A]"

text \<open>A status record with two TracerPid lines, the second one nonzero.\<close>

definition twice_tracer_status :: string where
  "twice_tracer_status = ''TracerPid:'' @ [CHR 0x09] @ ''0'' @ [CHR 0x0A]
                         @ ''TracerPid:'' @ [CHR 0x09] @ ''5'' @ [CHR 0x0A]"

text \<open>
  A writable and executable mapping of a file with a path of about a thousand bytes
  that ends in \<open>/rwxp.so\<close>: the first 1023 bytes of the line end inside the path. With
  four ordinary regions before it the listing has five lines.
\<close>

definition long_rwx_head :: string where
  "long_rwx_head =
     ''7f00a000-7f00b000 rwxp 00000000 fd:00 42 /data/'' @ replicate 976 (CHR ''a'')"

definition long_rwx_tail :: string where
  "long_rwx_tail = ''aaaa/rwxp.so'' @ [CHR 0x0A]"

definition maps_5_rwx_long :: string where
  "maps_5_rwx_long = concat (replicate 4 rwx_line) @ long_rwx_head @ long_rwx_tail"

text \<open>
  Six read-only mappings of a library named \<open>rwxp.so\<close>, and six writable and
  executable regions that are shared.
\<close>

definition rwxp_path_line :: string where
  "rwxp_path_line = ''7f00a000-7f00b000 r-xp 00000000 fd:00 42 /data/rwxp.so'' @ [CHR 0x0A]"

definition maps_rwxp_path :: string where
  "maps_rwxp_path = concat (replicate 6 rwxp_path_line)"

definition rwxs_line :: string where
  "rwxs_line = ''7f00a000-7f00b000 rwxs 00000000 00:05 7 /dev/ashmem/jit'' @ [CHR 0x0A]"

definition maps_6_rwxs :: string where
  "maps_6_rwxs = concat (replicate 6 rwxs_line)"

text \<open>
  A mapping of an instrumentation agent under a path of about a thousand bytes: the
  first 1023 bytes of the line end after \<open>/fr\<close>.
\<close>

definition long_frida_head :: string where
  "long_frida_head =
     ''7f00a000-7f00b000 r-xp 00000000 fd:00 42 /data/'' @ replicate 973 (CHR ''a'') @ ''/fr''"

definition long_frida_tail :: string where
  "long_frida_tail = ''ida-agent-64.so'' @ [CHR 0x0A]"

definition long_frida_maps :: string where
  "long_frida_maps = long_frida_head @ long_frida_tail"







text \<open>Code with the one-byte breakpoint in the last byte of the scan window.\<close>

definition last_byte_int3 :: "nat \<Rightarrow> byte" where
  "last_byte_int3 i = (if i = 4095 then 0xCC else 0)"

text \<open>
  The status record of a process that is named \<open>TracerPid:\<close> and has no tracer, and
  an uninitialised local that holds \<open>v\<close> whenever it is read.
\<close>

definition named_tracer_status :: string where
  "named_tracer_status = ''Name:'' @ [CHR 0x09] @ ''TracerPid:'' @ [CHR 0x0A]
                         @ ''TracerPid:'' @ [CHR 0x09] @ ''0'' @ [CHR 0x0A]"

definition slot_holding :: "int \<Rightarrow> nat \<Rightarrow> int" where
  "slot_holding v k = v"

text \<open>An environment with \<open>DEBUG\<close> set, and a clock that always reads \<open>t\<close>.\<close>

definition debug_env :: "string \<Rightarrow> string option" where
  "debug_env name = (if name = ''DEBUG'' then Some ''1'' else None)"

definition clock_at :: "int \<Rightarrow> nat \<Rightarrow> int" where
  "clock_at t k = t"


section \<open>Properties of the string scrambling\<close>

lemma decrypt_loop_eq:
  "decrypt_loop e seed i r = r @ map (\<lambda>j. e ! j XOR key_byte seed j) [i..<length e]"
proof (induction e seed i r rule: decrypt_loop.induct)
  case (1 encrypted seed i result)
  show ?case
  proof (cases "i < length encrypted")
    case True
    then have "[i..<length encrypted] = i # [Suc i..<length encrypted]"
      by (simp add: upt_conv_Cons)
    with True "1" show ?thesis
      by (subst decrypt_loop.simps) simp
  next
    case False
    then show ?thesis
      by (subst decrypt_loop.simps) simp
  qed
qed

lemma decrypt_string_eq:
  "decrypt_string e seed = map (\<lambda>j. e ! j XOR key_byte seed j) [0..<length e]"
  by (simp add: decrypt_string_def decrypt_loop_eq)

lemma length_decrypt_string: "length (decrypt_string e seed) = length e"
  by (simp add: decrypt_string_eq)

lemma nth_decrypt_string:
  "j < length e \<Longrightarrow> decrypt_string e seed ! j = e ! j XOR key_byte seed j"
  by (simp add: decrypt_string_eq)

text \<open>
  Claim C3. The XOR transform is its own inverse: decrypting twice with the same key
  schedule and the same seed gives back the byte sequence, whatever its length (the
  empty sequence included) and whatever the seed.
\<close>

theorem decrypt_string_involution:
  "decrypt_string (decrypt_string x seed) seed = x"
proof (rule nth_equalityI)
  show "length (decrypt_string (decrypt_string x seed) seed) = length x"
    by (simp add: length_decrypt_string)
next
  fix j
  assume "j < length (decrypt_string (decrypt_string x seed) seed)"
  then have j: "j < length x"
    by (simp add: length_decrypt_string)
  then have "decrypt_string (decrypt_string x seed) seed ! j
      = (x ! j XOR key_byte seed j) XOR key_byte seed j"
    by (simp add: nth_decrypt_string length_decrypt_string)
  also have "\<dots> = x ! j"
    by (simp add: xor.assoc)
  finally show "decrypt_string (decrypt_string x seed) seed ! j = x ! j" .
qed


section \<open>Properties of the C library model\<close>

lemma strstr_sublist: "strstr hay needle \<longleftrightarrow> sublist needle hay"
  by (induction hay) (auto simp: sublist_Cons_right)

lemma strncmp_eq_prefix: "strncmp_eq a b (length b) \<longleftrightarrow> prefix b a"
proof -
  have "prefix b a \<longleftrightarrow> take (length b) a = b"
    by (metis append_eq_conv_conj prefix_def append_take_drop_id)
  then show ?thesis by (simp add: strncmp_eq_def)
qed

lemma strncmp_eq_TracerPid:
  "strncmp_eq a ''TracerPid:'' 10 \<longleftrightarrow> prefix ''TracerPid:'' a"
proof -
  have h: "(10::nat) = length ''TracerPid:''" by simp
  show ?thesis by (subst h) (rule strncmp_eq_prefix)
qed

lemma cstr_no_NUL: "CHR 0x00 \<notin> set buf \<Longrightarrow> cstr buf = buf"
  by (auto simp: cstr_def)

lemma no_sublist_cstr: "c \<in> set needle \<Longrightarrow> c \<notin> set buf \<Longrightarrow> \<not> sublist needle (cstr buf)"
proof
  assume c: "c \<in> set needle" "c \<notin> set buf" and "sublist needle (cstr buf)"
  then have "set needle \<subseteq> set (cstr buf)" by (simp add: set_mono_sublist)
  with c(1) have "c \<in> set (cstr buf)" by auto
  then have "c \<in> set buf" by (auto simp: cstr_def dest: set_takeWhileD)
  with c(2) show False by simp
qed

subsection \<open>Reading a file line by line\<close>

lemma fgets_lines_Nil: "fgets_lines bufsize [] = []"
  by (subst fgets_lines.simps) simp

lemma fgets_lines_step:
  "stream \<noteq> [] \<Longrightarrow> 1 < bufsize \<Longrightarrow> fgets bufsize stream = (line, rest) \<Longrightarrow>
     fgets_lines bufsize stream = line # fgets_lines bufsize rest"
  by (subst fgets_lines.simps) simp

text \<open>A full buffer: the bytes stored are the next \<open>bufsize - 1\<close> bytes of the line.\<close>

lemma fgets_room_no_newline:
  "CHR 0x0A \<notin> set xs \<Longrightarrow> fgets_room (length xs) (xs @ rest) = (xs, rest)"
  by (induction xs) auto

text \<open>A line that fits: the bytes stored run up to and including its newline.\<close>

lemma fgets_room_newline:
  "CHR 0x0A \<notin> set xs \<Longrightarrow> length xs < k \<Longrightarrow>
     fgets_room k (xs @ CHR 0x0A # rest) = (xs @ [CHR 0x0A], rest)"
proof (induction xs arbitrary: k)
  case Nil
  then obtain k' where "k = Suc k'" by (cases k) auto
  then show ?case by simp
next
  case (Cons x xs)
  then obtain k' where k: "k = Suc k'" by (cases k) auto
  with Cons.prems have "length xs < k'" "CHR 0x0A \<notin> set xs" "x \<noteq> CHR 0x0A" by auto
  with Cons.IH [of k'] k show ?case by simp
qed

lemma fgets_lines_cut:
  assumes "CHR 0x0A \<notin> set head" "length head = bufsize - 1" "head \<noteq> []" "1 < bufsize"
  shows "fgets_lines bufsize (head @ rest) = head # fgets_lines bufsize rest"
proof -
  have "fgets bufsize (head @ rest) = (head, rest)"
    using fgets_room_no_newline [OF assms(1), of rest] assms(2) by (simp add: fgets_def)
  with assms(3,4) show ?thesis by (simp add: fgets_lines_step)
qed

lemma fgets_lines_line:
  assumes "CHR 0x0A \<notin> set xs" "length xs < bufsize - 1"
  shows "fgets_lines bufsize (xs @ CHR 0x0A # rest) = (xs @ [CHR 0x0A]) # fgets_lines bufsize rest"
proof -
  have "fgets bufsize (xs @ CHR 0x0A # rest) = (xs @ [CHR 0x0A], rest)"
    using fgets_room_newline [OF assms(1), of "bufsize - 1" rest] assms(2)
    by (simp add: fgets_def)
  moreover have "1 < bufsize" using assms(2) by simp
  ultimately show ?thesis by (simp add: fgets_lines_step)
qed

text \<open>
  A line longer than the buffer reaches the loop in pieces; here with a buffer of eight
  bytes.
\<close>

lemma fgets_lines_cuts_long_lines:
  "fgets_lines 8 (''abcdefghijkl'' @ [CHR 0x0A] @ ''mn'') = [''abcdefg'', ''hijkl'' @ [CHR 0x0A], ''mn'']"
  by code_simp

lemma text_lines_Nil: "text_lines cs = [] \<longleftrightarrow> cs = []"
  by (cases cs) (auto split: list.splits)

lemma text_lines_line:
  "CHR 0x0A \<notin> set xs \<Longrightarrow> text_lines (xs @ CHR 0x0A # rest) = (xs @ [CHR 0x0A]) # text_lines rest"
  by (induction xs) auto

lemma fgets_room_Nil: "fgets_room k [] = ([], [])"
  by (cases k) auto

lemma fgets_room_text_line:
  "text_lines cs = l # ls \<Longrightarrow> length l \<le> k \<Longrightarrow>
     \<exists>rest. fgets_room k cs = (l, rest) \<and> text_lines rest = ls"
proof (induction cs arbitrary: k l ls)
  case Nil
  then show ?case by simp
next
  case (Cons c cs)
  from Cons.prems have "l \<noteq> []" by (auto split: if_splits list.splits)
  with Cons.prems obtain k' where k: "k = Suc k'" by (cases k) auto
  show ?case
  proof (cases "c = CHR 0x0A")
    case True
    with Cons.prems k show ?thesis by simp
  next
    case False
    show ?thesis
    proof (cases "text_lines cs")
      case Nil
      then have "cs = []" by (simp add: text_lines_Nil)
      with Nil False Cons.prems k show ?thesis by (auto simp: fgets_room_Nil)
    next
      case (Cons l' ls')
      with False Cons.prems(1) have l: "l = c # l'" "ls = ls'" by simp_all
      with Cons.prems(2) k have "length l' \<le> k'" by simp
      with Cons.IH [OF Cons] obtain rest
        where "fgets_room k' cs = (l', rest)" "text_lines rest = ls'"
        by blast
      with False k l show ?thesis by simp
    qed
  qed
qed

text \<open>
  When every line of the file is shorter than the buffer, the loop reads the lines of
  the file.
\<close>

lemma fgets_lines_text_lines:
  "\<forall>l \<in> set (text_lines stream). length l < bufsize \<Longrightarrow>
     fgets_lines bufsize stream = text_lines stream"
proof (induction bufsize stream rule: fgets_lines.induct)
  case (1 bufsize stream)
  show ?case
  proof (cases "stream = []")
    case True
    then show ?thesis by (subst fgets_lines.simps) simp
  next
    case False
    then obtain l ls where tl: "text_lines stream = l # ls"
      by (cases "text_lines stream") (auto simp: text_lines_Nil)
    with "1.prems" have len: "length l < bufsize" by simp
    from tl have "l \<noteq> []" using False by (cases stream) (auto split: if_splits list.splits)
    with len have big: "\<not> bufsize \<le> 1" by (cases l) auto
    from len have "length l \<le> bufsize - 1" by simp
    with fgets_room_text_line [OF tl] obtain rest
      where f: "fgets bufsize stream = (l, rest)" and r: "text_lines rest = ls"
      by (auto simp: fgets_def)
    have "\<forall>l \<in> set (text_lines rest). length l < bufsize"
      using "1.prems" tl r by simp
    moreover have "\<not> (stream = [] \<or> bufsize \<le> 1)"
      using False big by simp
    ultimately have "fgets_lines bufsize rest = text_lines rest"
      using "1.IH" f [symmetric] by blast
    with False big f r tl show ?thesis
      by (subst fgets_lines.simps) simp
  qed
qed

lemma lines_fit_Some:
  "lines_fit bufsize (Some content) \<Longrightarrow> fgets_lines bufsize content = text_lines content"
  by (rule fgets_lines_text_lines) (simp add: lines_fit_def list_all_iff)


section \<open>The fields of a line\<close>

lemma split_on_not_Nil: "split_on c xs \<noteq> []"
  by (induction xs) (auto split: list.splits)

lemma split_on_sep: "c \<notin> set a \<Longrightarrow> split_on c (a @ c # rest) = a # split_on c rest"
  by (induction a) auto

lemma prefix_hd_split_on:
  "c \<notin> set pat \<Longrightarrow> prefix pat (hd (split_on c xs)) \<longleftrightarrow> prefix pat xs"
proof (induction xs arbitrary: pat)
  case Nil
  then show ?case by simp
next
  case (Cons x xs)
  obtain f fs where s: "split_on c xs = f # fs"
    using split_on_not_Nil [of c xs] by (cases "split_on c xs") auto
  show ?case
  proof (cases "x = c")
    case True
    with Cons.prems show ?thesis by (cases pat) auto
  next
    case False
    with Cons s show ?thesis by (cases pat) auto
  qed
qed

text \<open>
  A text that does not hold the separator occurs in a line exactly when it occurs in
  one of the fields.
\<close>

lemma sublist_split_on:
  assumes "c \<notin> set pat" and "pat \<noteq> []"
  shows "sublist pat xs \<longleftrightarrow> (\<exists>f \<in> set (split_on c xs). sublist pat f)"
proof (induction xs)
  case Nil
  from assms(2) show ?case by simp
next
  case (Cons x xs)
  obtain f fs where s: "split_on c xs = f # fs"
    using split_on_not_Nil [of c xs] by (cases "split_on c xs") auto
  show ?case
  proof (cases "x = c")
    case True
    from assms have "\<not> prefix pat (c # xs)" by (cases pat) auto
    with True Cons assms(2) s show ?thesis by (simp add: sublist_Cons_right)
  next
    case False
    have "prefix pat (x # f) \<longleftrightarrow> prefix pat (x # xs)"
      using prefix_hd_split_on [OF assms(1), of "x # xs"] False s by simp
    with False Cons s show ?thesis by (auto simp: sublist_Cons_right)
  qed
qed

lemma sublist_fields:
  assumes "CHR 0x20 \<notin> set pat" and "pat \<noteq> []"
  shows "sublist pat (cstr line) \<longleftrightarrow> (\<exists>f \<in> set (fields line). sublist pat f)"
  unfolding fields_def by (rule sublist_split_on [OF assms])

lemma list_all_enumerate:
  "list_all (\<lambda>(j, f). P j f) (enumerate 0 xs) \<longleftrightarrow> (\<forall>j < length xs. P j (xs ! j))"
  by (simp add: list_all_length nth_enumerate_eq)

lemma sublist_confined:
  assumes "confined_to_field pat i line" and "CHR 0x20 \<notin> set pat" and "pat \<noteq> []"
  shows "sublist pat (cstr line) \<longleftrightarrow> sublist pat (field i line)"
proof
  assume "sublist pat (cstr line)"
  then have "\<exists>f \<in> set (fields line). sublist pat f"
    by (rule sublist_fields [OF assms(2,3), THEN iffD1])
  then obtain j where j: "j < length (fields line)" "sublist pat (fields line ! j)"
    by (auto simp: in_set_conv_nth)
  from assms(1) have "\<forall>j < length (fields line). sublist pat (fields line ! j) \<longrightarrow> j = i"
    by (simp add: confined_to_field_def list_all_enumerate)
  with j have "j = i" by blast
  with j show "sublist pat (field i line)" by (simp add: field_def)
next
  assume a: "sublist pat (field i line)"
  with assms(3) have "i < length (fields line)"
    by (cases "i < length (fields line)") (simp_all add: field_def)
  with a have "\<exists>f \<in> set (fields line). sublist pat f"
    by (auto simp: field_def)
  then show "sublist pat (cstr line)"
    by (rule sublist_fields [OF assms(2,3), THEN iffD2])
qed

lemma sublist_same_length: "sublist xs ys \<Longrightarrow> length xs = length ys \<Longrightarrow> xs = ys"
  by (auto simp: sublist_def)

text \<open>The fields of a line that is given field by field.\<close>

lemma fields_sep:
  assumes "CHR 0x20 \<notin> set a" and "CHR 0x00 \<notin> set a"
  shows "fields (a @ CHR 0x20 # rest) = a # fields rest"
proof -
  from assms(2) have "takeWhile (\<lambda>c. c \<noteq> CHR 0x00) (a @ CHR 0x20 # rest)
      = a @ takeWhile (\<lambda>c. c \<noteq> CHR 0x00) (CHR 0x20 # rest)"
    by (intro takeWhile_append2) auto
  then have "cstr (a @ CHR 0x20 # rest) = a @ CHR 0x20 # cstr rest"
    by (simp add: cstr_def)
  with assms(1) show ?thesis
    by (simp add: fields_def split_on_sep)
qed

lemma field_0_sep:
  "CHR 0x20 \<notin> set a \<Longrightarrow> CHR 0x00 \<notin> set a \<Longrightarrow> field 0 (a @ CHR 0x20 # rest) = a"
  by (simp add: field_def fields_sep)

lemma field_Suc_sep:
  "CHR 0x20 \<notin> set a \<Longrightarrow> CHR 0x00 \<notin> set a \<Longrightarrow>
     field (Suc i) (a @ CHR 0x20 # rest) = field i rest"
  by (simp add: field_def fields_sep)


section \<open>The probes over the files under /proc\<close>

subsection \<open>The tracer-id probe\<close>

lemma tracer_pid_loop_result:
  "fst (tracer_pid_loop ls s) \<longleftrightarrow>
     (\<exists>l. find (\<lambda>line. prefix ''TracerPid:'' (cstr line)) ls = Some l
          \<and> atoi (drop 10 (cstr l)) \<noteq> 0)"
  by (induction ls) (simp_all add: strncmp_eq_TracerPid Let_def)

text \<open>The probe in terms of what its loop reads: pieces of at most 255 bytes.\<close>

lemma nativeDebuggerCheck_as_read:
  "fst (DebuggerDetection_nativeDebuggerCheck w s) \<longleftrightarrow>
     (\<exists>content l. status_file w = Some content
        \<and> find (\<lambda>line. prefix ''TracerPid:'' (cstr line)) (fgets_lines 256 content) = Some l
        \<and> atoi (drop 10 (cstr l)) \<noteq> 0)"
  by (cases "status_file w")
     (simp_all add: DebuggerDetection_nativeDebuggerCheck_def tracer_pid_loop_result)

text \<open>A number in the range of \<open>int\<close> comes through \<open>atoi\<close> as it is.\<close>

lemma int_of_long_fits: "fits_int v \<Longrightarrow> int_of_long v = v"
  unfolding fits_int_def int_of_long_def
  by (simp add: sint_sbintrunc' signed_take_bit_int_eq_self)

lemma atoi_fits: "fits_int (decimal_value s) \<Longrightarrow> atoi s = decimal_value s"
proof -
  assume f: "fits_int (decimal_value s)"
  then have "strtol s = decimal_value s"
    by (simp add: strtol_def fits_int_def LONG_MAX_def LONG_MIN_def)
  with f show ?thesis by (simp add: atoi_def int_of_long_fits)
qed

text \<open>
  Claim C2, as amended. For every status record whose lines are shorter than the
  256-byte buffer and whose TracerPid value is in the range of a 32-bit \<open>int\<close>, the
  tracer-id probe answers Suspicious exactly when the record can be opened, has a
  TracerPid field (the first line that starts with the key), and the value of the field
  parses to a nonzero integer. So a value of 0, a record without the field and a status
  file that cannot be opened all give Clear.
\<close>

theorem tracer_id_probe:
  assumes "lines_fit 256 (status_file w)"
      and "tracer_pid_fits_int (status_file w)"
  shows "fst (DebuggerDetection_nativeDebuggerCheck w s) \<longleftrightarrow>
     (\<exists>content v. status_file w = Some content \<and> tracer_pid_field content = Some v
         \<and> decimal_value v \<noteq> 0)"
proof (cases "status_file w")
  case None
  then show ?thesis by (simp add: nativeDebuggerCheck_as_read)
next
  case (Some content)
  with assms(1) have r: "fgets_lines 256 content = text_lines content"
    by (simp add: lines_fit_Some)
  show ?thesis
  proof (cases "tracer_pid_field content")
    case None
    with Some r show ?thesis
      by (simp add: nativeDebuggerCheck_as_read tracer_pid_field_def)
  next
    case (Some v)
    with \<open>status_file w = Some content\<close> assms(2) have "fits_int (decimal_value v)"
      by (simp add: tracer_pid_fits_int_def)
    then have "atoi v = decimal_value v" by (rule atoi_fits)
    with Some \<open>status_file w = Some content\<close> r show ?thesis
      by (auto simp: nativeDebuggerCheck_as_read tracer_pid_field_def)
  qed
qed

lemma tracer_pid_field_examples:
  "map_option decimal_value (tracer_pid_field traced_status) = Some 1234"
  "map_option decimal_value (tracer_pid_field quiet_status) = Some 0"
  "tracer_pid_field no_tracer_status = None"
  "lines_fit 256 (Some traced_status)"
  "lines_fit 256 (Some quiet_status)"
  "lines_fit 256 (Some no_tracer_status)"
  "tracer_pid_fits_int (Some traced_status)"
  "tracer_pid_fits_int (Some quiet_status)"
  "tracer_pid_fits_int (Some no_tracer_status)"
  by code_simp+

theorem tracer_id_probe_witness:
  "lines_fit 256 (Some traced_status) \<and> tracer_pid_fits_int (Some traced_status)
   \<and> fst (DebuggerDetection_nativeDebuggerCheck
          (quiet_world\<lparr>status_file := Some traced_status\<rparr>) fresh_proc)
   \<and> \<not> fst (DebuggerDetection_nativeDebuggerCheck quiet_world fresh_proc)
   \<and> \<not> fst (DebuggerDetection_nativeDebuggerCheck
              (quiet_world\<lparr>status_file := Some no_tracer_status\<rparr>) fresh_proc)
   \<and> \<not> fst (DebuggerDetection_nativeDebuggerCheck
              (quiet_world\<lparr>status_file := None\<rparr>) fresh_proc)"
proof -
  have q: "status_file quiet_world = Some quiet_status"
    by (simp add: quiet_world_def)
  have a: "\<exists>v. tracer_pid_field traced_status = Some v \<and> decimal_value v \<noteq> 0"
    using tracer_pid_field_examples(1) by (cases "tracer_pid_field traced_status") auto
  have b: "\<not> (\<exists>v. tracer_pid_field quiet_status = Some v \<and> decimal_value v \<noteq> 0)"
    using tracer_pid_field_examples(2) by (cases "tracer_pid_field quiet_status") auto
  have c: "\<not> (\<exists>v. tracer_pid_field no_tracer_status = Some v \<and> decimal_value v \<noteq> 0)"
    by (simp add: tracer_pid_field_examples(3))
  have 1: "fst (DebuggerDetection_nativeDebuggerCheck
          (quiet_world\<lparr>status_file := Some traced_status\<rparr>) fresh_proc)"
    using tracer_id_probe [of "quiet_world\<lparr>status_file := Some traced_status\<rparr>" fresh_proc] a
    by (simp add: tracer_pid_field_examples(4,7))
  have 2: "\<not> fst (DebuggerDetection_nativeDebuggerCheck quiet_world fresh_proc)"
    using tracer_id_probe [of quiet_world fresh_proc] b
    by (simp add: q tracer_pid_field_examples(5,8))
  have 3: "\<not> fst (DebuggerDetection_nativeDebuggerCheck
              (quiet_world\<lparr>status_file := Some no_tracer_status\<rparr>) fresh_proc)"
    using tracer_id_probe [of "quiet_world\<lparr>status_file := Some no_tracer_status\<rparr>" fresh_proc] c
    by (simp add: tracer_pid_field_examples(6,9))
  have 4: "\<not> fst (DebuggerDetection_nativeDebuggerCheck
              (quiet_world\<lparr>status_file := None\<rparr>) fresh_proc)"
    using tracer_id_probe [of "quiet_world\<lparr>status_file := None\<rparr>" fresh_proc]
    by (simp add: lines_fit_def tracer_pid_fits_int_def)
  from 1 2 3 4 tracer_pid_field_examples(4,7) show ?thesis by simp
qed

text \<open>
  The claim as stated fails on a record with a longer line, and on one with a number
  beyond the range of \<open>int\<close>. The first record has one line, a TracerPid field whose
  value parses to 5; the loop reads the key and the blanks as one line, the digit as
  the next, and the probe answers Clear. The second has the value \<open>2^32\<close>, whose low 32
  bits are 0, and the probe answers Clear.
\<close>

lemma padded_tracer_head_facts:
  "length padded_tracer_head = 255"
  "CHR 0x0A \<notin> set padded_tracer_head"
  "CHR 0x00 \<notin> set padded_tracer_head"
  "prefix ''TracerPid:'' padded_tracer_head"
  "drop 10 padded_tracer_head = replicate 245 (CHR 0x20)"
  by (simp_all add: padded_tracer_head_def)

lemma decimal_value_blanks:
  "decimal_value (replicate n (CHR 0x20) @ rest) = decimal_value rest"
proof -
  have "dropWhile isspace (replicate n (CHR 0x20) @ rest) = dropWhile isspace rest"
    by (rule dropWhile_append2) (simp add: isspace_def)
  then show ?thesis by (simp add: decimal_value_def)
qed

lemma atoi_blanks: "atoi (replicate n (CHR 0x20)) = 0"
proof -
  have "decimal_value [] = 0"
    by (simp add: decimal_value_def)
  with decimal_value_blanks [of n "[]"] have "decimal_value (replicate n (CHR 0x20)) = 0"
    by (simp only: append_Nil2)
  then show ?thesis
    by (simp add: atoi_def strtol_def int_of_long_def LONG_MAX_def LONG_MIN_def)
qed

lemma padded_tracer_status_as_read:
  "fgets_lines 256 padded_tracer_status = [padded_tracer_head, ''5'' @ [CHR 0x0A]]"
proof -
  have "fgets_lines 256 padded_tracer_status
      = padded_tracer_head # fgets_lines 256 (''5'' @ [CHR 0x0A])"
    unfolding padded_tracer_status_def
    by (rule fgets_lines_cut) (simp_all add: padded_tracer_head_facts, simp add: padded_tracer_head_def)
  moreover have "fgets_lines 256 (''5'' @ CHR 0x0A # []) = (''5'' @ [CHR 0x0A]) # fgets_lines 256 []"
    by (rule fgets_lines_line) simp_all
  ultimately show ?thesis by (simp add: fgets_lines_Nil)
qed

lemma padded_tracer_status_lines:
  "text_lines padded_tracer_status = [padded_tracer_status]"
proof -
  have "text_lines ((padded_tracer_head @ ''5'') @ CHR 0x0A # [])
      = ((padded_tracer_head @ ''5'') @ [CHR 0x0A]) # text_lines []"
    by (rule text_lines_line) (simp add: padded_tracer_head_facts)
  then show ?thesis by (simp add: padded_tracer_status_def)
qed

lemma padded_tracer_status_field:
  "map_option decimal_value (tracer_pid_field padded_tracer_status) = Some 5"
proof -
  have nul: "cstr padded_tracer_status = padded_tracer_status"
    by (rule cstr_no_NUL) (simp add: padded_tracer_status_def padded_tracer_head_facts)
  have p: "prefix ''TracerPid:'' padded_tracer_status"
    unfolding padded_tracer_status_def
    by (rule prefix_prefix) (rule padded_tracer_head_facts)
  have "drop 10 padded_tracer_status = replicate 245 (CHR 0x20) @ ''5'' @ [CHR 0x0A]"
    by (simp add: padded_tracer_status_def padded_tracer_head_facts)
  then have "decimal_value (drop 10 padded_tracer_status) = 5"
    by (simp add: decimal_value_blanks)
       (simp add: decimal_value_def isspace_def isdigit_def digit_val_def)
  with nul p show ?thesis
    by (simp add: tracer_pid_field_def padded_tracer_status_lines)
qed

lemma padded_tracer_status_clear:
  "\<not> fst (DebuggerDetection_nativeDebuggerCheck
          (quiet_world\<lparr>status_file := Some padded_tracer_status\<rparr>) fresh_proc)"
proof -
  have h: "cstr padded_tracer_head = padded_tracer_head"
    by (rule cstr_no_NUL) (rule padded_tracer_head_facts)
  show ?thesis
    by (simp add: nativeDebuggerCheck_as_read padded_tracer_status_as_read h
          padded_tracer_head_facts atoi_blanks)
qed

lemma wide_tracer_status_facts:
  "lines_fit 256 (Some wide_tracer_status)"
  "map_option decimal_value (tracer_pid_field wide_tracer_status) = Some 4294967296"
  "\<not> fst (DebuggerDetection_nativeDebuggerCheck
          (quiet_world\<lparr>status_file := Some wide_tracer_status\<rparr>) fresh_proc)"
  by code_simp+

theorem tracer_id_probe_counterexample:
  "map_option decimal_value (tracer_pid_field padded_tracer_status) = Some 5
   \<and> \<not> fst (DebuggerDetection_nativeDebuggerCheck
              (quiet_world\<lparr>status_file := Some padded_tracer_status\<rparr>) fresh_proc)
   \<and> lines_fit 256 (Some wide_tracer_status)
   \<and> map_option decimal_value (tracer_pid_field wide_tracer_status) = Some 4294967296
   \<and> \<not> fst (DebuggerDetection_nativeDebuggerCheck
              (quiet_world\<lparr>status_file := Some wide_tracer_status\<rparr>) fresh_proc)"
  using padded_tracer_status_field padded_tracer_status_clear wide_tracer_status_facts
  by simp

text \<open>With two TracerPid lines the first one decides.\<close>

lemma first_tracer_pid_line_decides:
  "\<not> fst (DebuggerDetection_nativeDebuggerCheck
          (quiet_world\<lparr>status_file := Some twice_tracer_status\<rparr>) fresh_proc)"
  by code_simp


subsection \<open>The executable-region audit\<close>

lemma maps_loop_count:
  "fst (snd (maps_loop ls ec wec s)) =
     wec + int (length (filter (\<lambda>l. strstr (cstr l) ''rwxp'') ls))"
  by (induction ls arbitrary: ec wec s) auto

text \<open>The audit in terms of what its loop reads: pieces of at most 1023 bytes.\<close>

lemma nativeMemoryCheck_as_read:
  "fst (TamperDetection_nativeMemoryCheck w s) \<longleftrightarrow>
     (\<exists>content. maps_file w = Some content
        \<and> 5 < length (filter (\<lambda>line. sublist ''rwxp'' (cstr line)) (fgets_lines 1024 content)))"
proof (cases "maps_file w")
  case None
  then show ?thesis by (simp add: TamperDetection_nativeMemoryCheck_def)
next
  case (Some content)
  obtain ec wec s1 where l: "maps_loop (fgets_lines 1024 content) 0 0 s = (ec, wec, s1)"
    by (cases "maps_loop (fgets_lines 1024 content) 0 0 s") auto
  have "wec = int (length (filter (\<lambda>line. sublist ''rwxp'' (cstr line))
                             (fgets_lines 1024 content)))"
    using maps_loop_count [of "fgets_lines 1024 content" 0 0 s] l
    by (simp add: strstr_sublist)
  with Some l show ?thesis
    by (simp add: TamperDetection_nativeMemoryCheck_def)
qed

text \<open>
  On a plain line the test of the loop, the text \<open>rwxp\<close> somewhere in the line, says
  that the line is marked writable and executable.
\<close>

lemma four_flags: "length p = 4 \<Longrightarrow> p = [p ! 0, p ! 1, p ! 2, p ! 3]"
  by (auto simp: list_eq_iff_nth_eq less_Suc_eq numeral_eq_Suc)

lemma plain_maps_line_marked:
  assumes "plain_maps_line line"
  shows "sublist ''rwxp'' (cstr line) \<longleftrightarrow> marked_writable_executable line"
proof -
  from assms have len: "length (permission_field line) = 4"
    and conf: "confined_to_field ''rwxp'' 1 line"
    and flags: "marked_writable_executable line \<Longrightarrow>
          permission_field line ! 0 = CHR ''r'' \<and> permission_field line ! 3 = CHR ''p''"
    by (simp_all add: plain_maps_line_def)
  have rp: "permission_field line = ''rwxp''" if m: "marked_writable_executable line"
  proof -
    from m have "permission_field line ! 1 = CHR ''w''" "permission_field line ! 2 = CHR ''x''"
      by (simp_all add: marked_writable_executable_def)
    with flags [OF m] four_flags [OF len] show ?thesis by simp
  qed
  have "sublist ''rwxp'' (cstr line) \<longleftrightarrow> sublist ''rwxp'' (permission_field line)"
    unfolding permission_field_def by (rule sublist_confined [OF conf]) simp_all
  also have "\<dots> \<longleftrightarrow> permission_field line = ''rwxp''"
  proof
    assume "sublist ''rwxp'' (permission_field line)"
    then have "''rwxp'' = permission_field line"
      by (rule sublist_same_length) (simp add: len)
    then show "permission_field line = ''rwxp''" by (rule sym)
  next
    assume "permission_field line = ''rwxp''"
    then show "sublist ''rwxp'' (permission_field line)" by simp
  qed
  also have "\<dots> \<longleftrightarrow> marked_writable_executable line"
  proof
    assume "permission_field line = ''rwxp''"
    then show "marked_writable_executable line"
      by (simp add: marked_writable_executable_def)
  next
    assume "marked_writable_executable line"
    then show "permission_field line = ''rwxp''" by (rule rp)
  qed
  finally show ?thesis .
qed

lemma plain_maps_count:
  "list_all plain_maps_line ls \<Longrightarrow>
     filter (\<lambda>line. sublist ''rwxp'' (cstr line)) ls = filter marked_writable_executable ls"
  by (induction ls) (simp_all add: plain_maps_line_marked)

text \<open>
  Claim C5, as amended. For every memory-map listing whose lines are plain and shorter
  than the 1024-byte buffer (each line has a permission field of four flags, the text
  \<open>rwxp\<close> occurs nowhere else in it, and a region marked writable and executable is
  also readable and private), the executable-region audit answers Suspicious exactly
  when the listing can be opened and more than five of its lines are marked both
  writable and executable: five such lines give Clear, six give Suspicious.
\<close>

theorem memory_check_threshold:
  assumes "lines_fit 1024 (maps_file w)"
      and "plain_maps (maps_file w)"
  shows "fst (TamperDetection_nativeMemoryCheck w s) \<longleftrightarrow>
     (\<exists>content. maps_file w = Some content \<and> 5 < writable_executable_lines content)"
proof (cases "maps_file w")
  case None
  then show ?thesis by (simp add: nativeMemoryCheck_as_read)
next
  case (Some content)
  with assms(1) have r: "fgets_lines 1024 content = text_lines content"
    by (simp add: lines_fit_Some)
  from Some assms(2) have "list_all plain_maps_line (text_lines content)"
    by (simp add: plain_maps_def)
  then have "filter (\<lambda>line. sublist ''rwxp'' (cstr line)) (text_lines content)
      = filter marked_writable_executable (text_lines content)"
    by (rule plain_maps_count)
  with Some r show ?thesis
    by (simp add: nativeMemoryCheck_as_read writable_executable_lines_def)
qed

lemma writable_executable_lines_examples:
  "writable_executable_lines maps_5_rwx = 5"
  "writable_executable_lines maps_6_rwx = 6"
  "lines_fit 1024 (Some maps_5_rwx)"
  "lines_fit 1024 (Some maps_6_rwx)"
  "plain_maps (Some maps_5_rwx)"
  "plain_maps (Some maps_6_rwx)"
  by code_simp+

theorem memory_check_threshold_witness:
  "lines_fit 1024 (Some maps_5_rwx) \<and> plain_maps (Some maps_5_rwx)
   \<and> lines_fit 1024 (Some maps_6_rwx) \<and> plain_maps (Some maps_6_rwx)
   \<and> \<not> fst (TamperDetection_nativeMemoryCheck (quiet_world\<lparr>maps_file := Some maps_5_rwx\<rparr>) fresh_proc)
   \<and> fst (TamperDetection_nativeMemoryCheck (quiet_world\<lparr>maps_file := Some maps_6_rwx\<rparr>) fresh_proc)
   \<and> \<not> fst (TamperDetection_nativeMemoryCheck (quiet_world\<lparr>maps_file := None\<rparr>) fresh_proc)"
  using memory_check_threshold [of "quiet_world\<lparr>maps_file := Some maps_5_rwx\<rparr>" fresh_proc]
        memory_check_threshold [of "quiet_world\<lparr>maps_file := Some maps_6_rwx\<rparr>" fresh_proc]
        memory_check_threshold [of "quiet_world\<lparr>maps_file := None\<rparr>" fresh_proc]
  by (simp add: writable_executable_lines_examples) (simp add: lines_fit_def plain_maps_def)

text \<open>
  The claim as stated fails on three listings. The first has five lines, each marked
  writable and executable, the last of them longer than the buffer: the loop reads it
  in two pieces, finds the permission string in the first and the file name
  \<open>rwxp.so\<close> in the second, counts six, and the audit answers Suspicious. The second
  has six read-only mappings of a file named \<open>rwxp.so\<close> and no writable region: the
  audit answers Suspicious. The third has six regions that are writable, executable
  and shared: the audit answers Clear.
\<close>

lemma rwx_line_facts:
  "text_lines (rwx_line @ rest) = rwx_line # text_lines rest"
  "fgets_lines 1024 (rwx_line @ rest) = rwx_line # fgets_lines 1024 rest"
  "sublist ''rwxp'' (cstr rwx_line)"
proof -
  define body where "body = ''7f00a000-7f00b000 rwxp 00000000 00:00 0''"
  have r': "rwx_line = body @ [CHR 0x0A]"
    by (simp add: rwx_line_def body_def)
  have n: "CHR 0x0A \<notin> set body" "length body < 1024 - 1"
    by (simp_all add: body_def)
  have "text_lines (body @ CHR 0x0A # rest) = (body @ [CHR 0x0A]) # text_lines rest"
    using n(1) by (rule text_lines_line)
  then show "text_lines (rwx_line @ rest) = rwx_line # text_lines rest"
    by (simp add: r')
  have "fgets_lines 1024 (body @ CHR 0x0A # rest) = (body @ [CHR 0x0A]) # fgets_lines 1024 rest"
    using n by (rule fgets_lines_line)
  then show "fgets_lines 1024 (rwx_line @ rest) = rwx_line # fgets_lines 1024 rest"
    by (simp add: r')
  show "sublist ''rwxp'' (cstr rwx_line)"
    by code_simp
qed

lemma long_rwx_facts:
  "length long_rwx_head = 1023"
  "CHR 0x0A \<notin> set long_rwx_head"
  "CHR 0x00 \<notin> set long_rwx_head"
  "sublist ''rwxp'' long_rwx_head"
  "sublist ''rwxp'' (cstr long_rwx_tail)"
  "CHR 0x00 \<notin> set long_rwx_tail"
proof -
  show "length long_rwx_head = 1023" "CHR 0x0A \<notin> set long_rwx_head"
       "CHR 0x00 \<notin> set long_rwx_head" "CHR 0x00 \<notin> set long_rwx_tail"
    by (simp_all add: long_rwx_head_def long_rwx_tail_def)
  have "sublist ''rwxp'' (''7f00a000-7f00b000 '' @ ''rwxp''
          @ ('' 00000000 fd:00 42 /data/'' @ replicate 976 (CHR ''a'')))"
    by (rule sublist_appendI)
  then show "sublist ''rwxp'' long_rwx_head"
    by (simp add: long_rwx_head_def)
  show "sublist ''rwxp'' (cstr long_rwx_tail)"
    by code_simp
qed

lemma maps_5_rwx_long_as_read:
  "fgets_lines 1024 maps_5_rwx_long =
     [rwx_line, rwx_line, rwx_line, rwx_line, long_rwx_head, long_rwx_tail]"
proof -
  have cut: "fgets_lines 1024 (long_rwx_head @ long_rwx_tail)
      = long_rwx_head # fgets_lines 1024 long_rwx_tail"
    by (rule fgets_lines_cut) (simp_all add: long_rwx_facts, simp add: long_rwx_head_def)
  have "fgets_lines 1024 (''aaaa/rwxp.so'' @ CHR 0x0A # [])
      = (''aaaa/rwxp.so'' @ [CHR 0x0A]) # fgets_lines 1024 []"
    by (rule fgets_lines_line) simp_all
  then have tail: "fgets_lines 1024 long_rwx_tail = [long_rwx_tail]"
    by (simp add: long_rwx_tail_def fgets_lines_Nil)
  have e: "maps_5_rwx_long
      = rwx_line @ rwx_line @ rwx_line @ rwx_line @ long_rwx_head @ long_rwx_tail"
    by (simp add: maps_5_rwx_long_def numeral_eq_Suc)
  show ?thesis
    unfolding e by (simp only: rwx_line_facts(2) cut tail)
qed

lemma maps_5_rwx_long_lines:
  "text_lines maps_5_rwx_long =
     [rwx_line, rwx_line, rwx_line, rwx_line, long_rwx_head @ long_rwx_tail]"
proof -
  have "text_lines ((long_rwx_head @ ''aaaa/rwxp.so'') @ CHR 0x0A # [])
      = ((long_rwx_head @ ''aaaa/rwxp.so'') @ [CHR 0x0A]) # text_lines []"
    by (rule text_lines_line) (simp add: long_rwx_facts)
  then have last: "text_lines (long_rwx_head @ long_rwx_tail) = [long_rwx_head @ long_rwx_tail]"
    by (simp add: long_rwx_tail_def)
  have e: "maps_5_rwx_long
      = rwx_line @ rwx_line @ rwx_line @ rwx_line @ long_rwx_head @ long_rwx_tail"
    by (simp add: maps_5_rwx_long_def numeral_eq_Suc)
  show ?thesis
    unfolding e by (simp only: rwx_line_facts(1) last)
qed

lemma long_rwx_line_marked: "marked_writable_executable (long_rwx_head @ long_rwx_tail)"
proof -
  define rest where "rest = ''00000000 fd:00 42 /data/'' @ replicate 976 (CHR ''a'') @ long_rwx_tail"
  have e: "long_rwx_head @ long_rwx_tail
      = ''7f00a000-7f00b000'' @ CHR 0x20 # (''rwxp'' @ CHR 0x20 # rest)"
    by (simp add: long_rwx_head_def rest_def)
  have "field (Suc 0) (''7f00a000-7f00b000'' @ CHR 0x20 # (''rwxp'' @ CHR 0x20 # rest))
      = field 0 (''rwxp'' @ CHR 0x20 # rest)"
    by (rule field_Suc_sep) simp_all
  also have "\<dots> = ''rwxp''"
    by (rule field_0_sep) simp_all
  finally have "permission_field (long_rwx_head @ long_rwx_tail) = ''rwxp''"
    unfolding e by (simp only: permission_field_def One_nat_def)
  then show ?thesis
    by (simp add: marked_writable_executable_def)
qed

lemma rwx_line_marked: "marked_writable_executable rwx_line"
  by code_simp

lemma maps_5_rwx_long_audit:
  "writable_executable_lines maps_5_rwx_long = 5"
  "fst (TamperDetection_nativeMemoryCheck
          (quiet_world\<lparr>maps_file := Some maps_5_rwx_long\<rparr>) fresh_proc)"
proof -
  have h: "cstr long_rwx_head = long_rwx_head"
    by (rule cstr_no_NUL) (rule long_rwx_facts)
  show "writable_executable_lines maps_5_rwx_long = 5"
    by (simp add: writable_executable_lines_def maps_5_rwx_long_lines rwx_line_marked
          long_rwx_line_marked)
  show "fst (TamperDetection_nativeMemoryCheck
          (quiet_world\<lparr>maps_file := Some maps_5_rwx_long\<rparr>) fresh_proc)"
    by (simp add: nativeMemoryCheck_as_read maps_5_rwx_long_as_read rwx_line_facts(3) h
          long_rwx_facts)
qed

lemma maps_rwxp_path_audit:
  "lines_fit 1024 (Some maps_rwxp_path)"
  "writable_executable_lines maps_rwxp_path = 0"
  "fst (TamperDetection_nativeMemoryCheck
          (quiet_world\<lparr>maps_file := Some maps_rwxp_path\<rparr>) fresh_proc)"
  by code_simp+

lemma maps_6_rwxs_audit:
  "lines_fit 1024 (Some maps_6_rwxs)"
  "writable_executable_lines maps_6_rwxs = 6"
  "\<not> fst (TamperDetection_nativeMemoryCheck
          (quiet_world\<lparr>maps_file := Some maps_6_rwxs\<rparr>) fresh_proc)"
  by code_simp+

theorem memory_check_threshold_counterexample:
  "writable_executable_lines maps_5_rwx_long = 5
   \<and> fst (TamperDetection_nativeMemoryCheck
            (quiet_world\<lparr>maps_file := Some maps_5_rwx_long\<rparr>) fresh_proc)
   \<and> lines_fit 1024 (Some maps_rwxp_path)
   \<and> writable_executable_lines maps_rwxp_path = 0
   \<and> fst (TamperDetection_nativeMemoryCheck
            (quiet_world\<lparr>maps_file := Some maps_rwxp_path\<rparr>) fresh_proc)
   \<and> lines_fit 1024 (Some maps_6_rwxs)
   \<and> writable_executable_lines maps_6_rwxs = 6
   \<and> \<not> fst (TamperDetection_nativeMemoryCheck
              (quiet_world\<lparr>maps_file := Some maps_6_rwxs\<rparr>) fresh_proc)"
  using maps_5_rwx_long_audit maps_rwxp_path_audit maps_6_rwxs_audit
  by simp


subsection \<open>The loaded-library scan\<close>

lemma first_lib_find: "first_lib line libs = find (\<lambda>lib. sublist lib (cstr line)) libs"
  by (induction libs) (simp_all add: strstr_sublist)

lemma libs_loop_find:
  "libs_loop libs ls =
     (case find (\<lambda>line. \<exists>lib \<in> set libs. sublist lib (cstr line)) ls of
        None \<Rightarrow> None
      | Some line \<Rightarrow> find (\<lambda>lib. sublist lib (cstr line)) libs)"
proof (induction ls)
  case Nil
  then show ?case by simp
next
  case (Cons line rest)
  show ?case
  proof (cases "first_lib line libs")
    case None
    then have "\<not> (\<exists>lib \<in> set libs. sublist lib (cstr line))"
      by (simp add: first_lib_find find_None_iff)
    with None Cons show ?thesis by simp
  next
    case (Some lib)
    then have "\<exists>lib \<in> set libs. sublist lib (cstr line)"
      by (auto simp: first_lib_find find_Some_iff)
    with Some show ?thesis by (simp add: first_lib_find)
  qed
qed

lemma libs_loop_None:
  "libs_loop libs ls = None \<longleftrightarrow>
     \<not> (\<exists>line \<in> set ls. \<exists>lib \<in> set libs. sublist lib (cstr line))"
proof (cases "find (\<lambda>line. \<exists>lib \<in> set libs. sublist lib (cstr line)) ls")
  case None
  then have "\<not> (\<exists>line \<in> set ls. \<exists>lib \<in> set libs. sublist lib (cstr line))"
    by (simp add: find_None_iff)
  with None show ?thesis by (simp add: libs_loop_find)
next
  case (Some line)
  then have line: "line \<in> set ls" "\<exists>lib \<in> set libs. sublist lib (cstr line)"
    by (auto simp: find_Some_iff)
  then have "find (\<lambda>lib. sublist lib (cstr line)) libs \<noteq> None"
    by (auto simp: find_None_iff)
  with Some line show ?thesis by (auto simp: libs_loop_find)
qed

text \<open>The scan in terms of what its loop reads: pieces of at most 1023 bytes.\<close>

lemma nativeHookCheck_as_read:
  "(fst (HookDetection_nativeHookCheck w s) \<longleftrightarrow>
      (\<exists>content. maps_file w = Some content \<and>
         (\<exists>line \<in> set (fgets_lines 1024 content).
            \<exists>lib \<in> set suspicious_libs. sublist lib (cstr line))))
   \<and> (fst (HookDetection_nativeHookCheck w s) \<longrightarrow>
        (\<exists>content line lib. maps_file w = Some content
           \<and> find (\<lambda>line. \<exists>lib \<in> set suspicious_libs. sublist lib (cstr line))
                (fgets_lines 1024 content) = Some line
           \<and> find (\<lambda>lib. sublist lib (cstr line)) suspicious_libs = Some lib
           \<and> snd (HookDetection_nativeHookCheck w s) =
               LOGW ''Suspicious library detected in memory: %s'' [Str lib] s))
   \<and> (\<not> fst (HookDetection_nativeHookCheck w s) \<longrightarrow>
        snd (HookDetection_nativeHookCheck w s) = s)"
proof (cases "maps_file w")
  case None
  then show ?thesis by (simp add: HookDetection_nativeHookCheck_def)
next
  case (Some content)
  show ?thesis
  proof (cases "libs_loop suspicious_libs (fgets_lines 1024 content)")
    case None
    with Some show ?thesis
      using libs_loop_None [of suspicious_libs "fgets_lines 1024 content"]
      by (simp add: HookDetection_nativeHookCheck_def)
  next
    case hit: (Some lib)
    then have "\<not> libs_loop suspicious_libs (fgets_lines 1024 content) = None" by simp
    then have ex: "\<exists>line \<in> set (fgets_lines 1024 content).
        \<exists>lib \<in> set suspicious_libs. sublist lib (cstr line)"
      by (simp only: libs_loop_None not_not)
    from hit obtain line where
      "find (\<lambda>line. \<exists>lib \<in> set suspicious_libs. sublist lib (cstr line))
         (fgets_lines 1024 content) = Some line"
      "find (\<lambda>lib. sublist lib (cstr line)) suspicious_libs = Some lib"
      by (auto simp: libs_loop_find split: option.splits)
    with Some hit ex show ?thesis
      by (simp add: HookDetection_nativeHookCheck_def)
  qed
qed

text \<open>
  Claim C7, as amended. For every memory-map listing whose lines are shorter than the
  1024-byte buffer, the loaded-library scan answers Suspicious exactly when the listing
  can be opened and some line of it contains one of the five configured substrings (the
  search compares bytes, so case matters). When it does, the warning it logs names the
  substring matched: the first entry of the table that the first matching line
  contains. When no line contains any of them, or the file cannot be opened, the answer
  is Clear and nothing is logged.
\<close>

theorem hook_scan:
  assumes "lines_fit 1024 (maps_file w)"
  shows
  "(fst (HookDetection_nativeHookCheck w s) \<longleftrightarrow>
      (\<exists>content. maps_file w = Some content \<and>
         (\<exists>line \<in> set (text_lines content).
            \<exists>lib \<in> set suspicious_libs. sublist lib (cstr line))))
   \<and> (fst (HookDetection_nativeHookCheck w s) \<longrightarrow>
        (\<exists>content line lib. maps_file w = Some content
           \<and> find (\<lambda>line. \<exists>lib \<in> set suspicious_libs. sublist lib (cstr line))
                (text_lines content) = Some line
           \<and> find (\<lambda>lib. sublist lib (cstr line)) suspicious_libs = Some lib
           \<and> snd (HookDetection_nativeHookCheck w s) =
               LOGW ''Suspicious library detected in memory: %s'' [Str lib] s))
   \<and> (\<not> fst (HookDetection_nativeHookCheck w s) \<longrightarrow>
        snd (HookDetection_nativeHookCheck w s) = s)"
proof (cases "maps_file w")
  case None
  then show ?thesis using nativeHookCheck_as_read [of w s] by simp
next
  case (Some content)
  with assms have "fgets_lines 1024 content = text_lines content"
    by (simp add: lines_fit_Some)
  with Some show ?thesis using nativeHookCheck_as_read [of w s] by simp
qed

lemma frida_maps_lines:
  "text_lines frida_maps = [frida_maps]"
  "sublist ''frida'' (cstr frida_maps)"
  "find (\<lambda>lib. sublist lib (cstr frida_maps)) suspicious_libs = Some ''frida''"
  "lines_fit 1024 (Some frida_maps)"
  "lines_fit 1024 (Some [])"
  by code_simp+

theorem hook_scan_witness:
  "lines_fit 1024 (Some frida_maps)
   \<and> HookDetection_nativeHookCheck (quiet_world\<lparr>maps_file := Some frida_maps\<rparr>) fresh_proc =
       (True, LOGW ''Suspicious library detected in memory: %s'' [Str ''frida''] fresh_proc)
   \<and> HookDetection_nativeHookCheck quiet_world fresh_proc = (False, fresh_proc)"
proof -
  let ?w = "quiet_world\<lparr>maps_file := Some frida_maps\<rparr>"
  have f: "lines_fit 1024 (maps_file ?w)" "lines_fit 1024 (maps_file quiet_world)"
    by (simp_all add: frida_maps_lines quiet_world_def)
  have "''frida'' \<in> set suspicious_libs" by (simp add: suspicious_libs_def)
  then have "\<exists>line \<in> set (text_lines frida_maps).
      \<exists>lib \<in> set suspicious_libs. sublist lib (cstr line)"
    using frida_maps_lines by auto
  then have 1: "fst (HookDetection_nativeHookCheck ?w fresh_proc)"
    using hook_scan [OF f(1), of fresh_proc] by simp
  then have "snd (HookDetection_nativeHookCheck ?w fresh_proc) =
      LOGW ''Suspicious library detected in memory: %s'' [Str ''frida''] fresh_proc"
    using hook_scan [OF f(1), of fresh_proc] frida_maps_lines by auto
  with 1 have a: "HookDetection_nativeHookCheck ?w fresh_proc =
     (True, LOGW ''Suspicious library detected in memory: %s'' [Str ''frida''] fresh_proc)"
    by (cases "HookDetection_nativeHookCheck ?w fresh_proc") simp
  have "\<not> fst (HookDetection_nativeHookCheck quiet_world fresh_proc)"
    using hook_scan [OF f(2), of fresh_proc] by (simp add: quiet_world_def)
  then have b: "HookDetection_nativeHookCheck quiet_world fresh_proc = (False, fresh_proc)"
    using hook_scan [OF f(2), of fresh_proc]
    by (cases "HookDetection_nativeHookCheck quiet_world fresh_proc") simp
  from a b frida_maps_lines(4) show ?thesis by simp
qed

text \<open>
  The claim as stated fails on a listing with a longer line. Here the one line of the
  listing contains \<open>frida\<close>; the loop reads it in two pieces, the first ending in \<open>/fr\<close>,
  the second starting with \<open>ida\<close>, finds no configured substring in either, and the
  scan answers Clear.
\<close>

lemma long_frida_facts:
  "length long_frida_head = 1023"
  "CHR 0x0A \<notin> set long_frida_head"
  "CHR 0x00 \<notin> set long_frida_head"
  "CHR 0x00 \<notin> set long_frida_tail"
  "CHR ''i'' \<notin> set long_frida_head"
  "CHR ''s'' \<notin> set long_frida_head"
  "CHR ''c'' \<notin> set long_frida_head"
  "CHR ''l'' \<notin> set long_frida_head"
  by (simp_all add: long_frida_head_def long_frida_tail_def)

lemma long_frida_maps_as_read:
  "fgets_lines 1024 long_frida_maps = [long_frida_head, long_frida_tail]"
proof -
  have cut: "fgets_lines 1024 (long_frida_head @ long_frida_tail)
      = long_frida_head # fgets_lines 1024 long_frida_tail"
    by (rule fgets_lines_cut) (simp_all add: long_frida_facts, simp add: long_frida_head_def)
  have "fgets_lines 1024 (''ida-agent-64.so'' @ CHR 0x0A # [])
      = (''ida-agent-64.so'' @ [CHR 0x0A]) # fgets_lines 1024 []"
    by (rule fgets_lines_line) simp_all
  then have "fgets_lines 1024 long_frida_tail = [long_frida_tail]"
    by (simp add: long_frida_tail_def fgets_lines_Nil)
  with cut show ?thesis by (simp add: long_frida_maps_def)
qed

lemma long_frida_maps_lines:
  "text_lines long_frida_maps = [long_frida_maps]"
proof -
  have "text_lines ((long_frida_head @ ''ida-agent-64.so'') @ CHR 0x0A # [])
      = ((long_frida_head @ ''ida-agent-64.so'') @ [CHR 0x0A]) # text_lines []"
    by (rule text_lines_line) (simp add: long_frida_facts)
  then show ?thesis by (simp add: long_frida_maps_def long_frida_tail_def)
qed

lemma long_frida_tail_clean:
  "\<not> (\<exists>lib \<in> set suspicious_libs. sublist lib (cstr long_frida_tail))"
  by code_simp

lemma long_frida_head_clean:
  "\<not> (\<exists>lib \<in> set suspicious_libs. sublist lib (cstr long_frida_head))"
proof -
  have "\<not> sublist ''frida'' (cstr long_frida_head)"
    by (rule no_sublist_cstr [of "CHR ''i''"]) (simp_all add: long_frida_facts)
  moreover have "\<not> sublist ''xposed'' (cstr long_frida_head)"
    by (rule no_sublist_cstr [of "CHR ''s''"]) (simp_all add: long_frida_facts)
  moreover have "\<not> sublist ''substrate'' (cstr long_frida_head)"
    by (rule no_sublist_cstr [of "CHR ''s''"]) (simp_all add: long_frida_facts)
  moreover have "\<not> sublist ''cydia'' (cstr long_frida_head)"
    by (rule no_sublist_cstr [of "CHR ''c''"]) (simp_all add: long_frida_facts)
  moreover have "\<not> sublist ''libhook'' (cstr long_frida_head)"
    by (rule no_sublist_cstr [of "CHR ''l''"]) (simp_all add: long_frida_facts)
  ultimately show ?thesis by (simp add: suspicious_libs_def)
qed

theorem hook_scan_counterexample:
  "text_lines long_frida_maps = [long_frida_maps]
   \<and> sublist ''frida'' (cstr long_frida_maps)
   \<and> ''frida'' \<in> set suspicious_libs
   \<and> \<not> fst (HookDetection_nativeHookCheck
              (quiet_world\<lparr>maps_file := Some long_frida_maps\<rparr>) fresh_proc)"
proof -
  have "cstr long_frida_maps = long_frida_maps"
    by (rule cstr_no_NUL) (simp add: long_frida_maps_def long_frida_facts)
  moreover have "sublist ''frida''
      ((''7f00a000-7f00b000 r-xp 00000000 fd:00 42 /data/'' @ replicate 973 (CHR ''a'') @ ''/'')
        @ ''frida'' @ (''-agent-64.so'' @ [CHR 0x0A]))"
    by (rule sublist_appendI)
  then have "sublist ''frida'' long_frida_maps"
    by (simp add: long_frida_maps_def long_frida_head_def long_frida_tail_def)
  ultimately have 1: "sublist ''frida'' (cstr long_frida_maps)"
    by simp
  have 2: "''frida'' \<in> set suspicious_libs"
    by (simp add: suspicious_libs_def)
  have 3: "\<not> fst (HookDetection_nativeHookCheck
              (quiet_world\<lparr>maps_file := Some long_frida_maps\<rparr>) fresh_proc)"
    using nativeHookCheck_as_read
            [of "quiet_world\<lparr>maps_file := Some long_frida_maps\<rparr>" fresh_proc]
          long_frida_head_clean long_frida_tail_clean
    by (simp add: long_frida_maps_as_read)
  from 1 2 3 long_frida_maps_lines show ?thesis by simp
qed


subsection \<open>The mount-writability probe\<close>


















section \<open>The breakpoint scan\<close>

lemma breakpoint_loop_miss:
  "i < n \<Longrightarrow> \<not> breakpoint_at m n i \<Longrightarrow> breakpoint_loop m n i = breakpoint_loop m n (Suc i)"
  by (subst breakpoint_loop.simps) (auto simp: breakpoint_at_def)

lemma breakpoint_loop_hit:
  "i < n \<Longrightarrow> breakpoint_at m n i \<Longrightarrow> breakpoint_loop m n i \<noteq> None"
  by (subst breakpoint_loop.simps) (auto simp: breakpoint_at_def)

lemma breakpoint_loop_None:
  "breakpoint_loop m n i = None \<longleftrightarrow> (\<forall>j. i \<le> j \<and> j < n \<longrightarrow> \<not> breakpoint_at m n j)"
proof (induction m n i rule: breakpoint_loop.induct)
  case (1 memory scan_size i)
  show ?case
  proof (cases "i < scan_size")
    case False
    then show ?thesis by (subst breakpoint_loop.simps) auto
  next
    case True
    show ?thesis
    proof (cases "breakpoint_at memory scan_size i")
      case hit: True
      with True have "breakpoint_loop memory scan_size i \<noteq> None"
        by (rule breakpoint_loop_hit)
      with hit True show ?thesis by auto
    next
      case miss: False
      with True have step:
        "breakpoint_loop memory scan_size i = breakpoint_loop memory scan_size (Suc i)"
        by (simp add: breakpoint_loop_miss)
      have ih: "breakpoint_loop memory scan_size (Suc i) = None \<longleftrightarrow>
        (\<forall>j. Suc i \<le> j \<and> j < scan_size \<longrightarrow> \<not> breakpoint_at memory scan_size j)"
        using "1.IH" True miss by (simp add: breakpoint_at_def)
      have "(\<forall>j. i \<le> j \<and> j < scan_size \<longrightarrow> \<not> breakpoint_at memory scan_size j)
        \<longleftrightarrow> (\<forall>j. Suc i \<le> j \<and> j < scan_size \<longrightarrow> \<not> breakpoint_at memory scan_size j)"
        using miss by (metis Suc_leI le_neq_implies_less Suc_leD)
      with step ih show ?thesis by simp
    qed
  qed
qed

lemma breakpoint_scan_fst:
  "fst (TamperDetection_nativeBreakpointScan w s) \<longleftrightarrow>
     breakpoint_loop (breakpoint_scan_text w) 4096 0 \<noteq> None"
  by (simp add: TamperDetection_nativeBreakpointScan_def split: option.splits scan_hit.splits)

text \<open>
  Claim C6. Over the 4096 bytes at its own address the breakpoint scan answers
  Suspicious exactly when the byte \<open>0xCC\<close> stands at some offset below 4096, the last
  one (4095) included, or the four bytes at some offset up to 4092 carry the
  breakpoint bit pattern; a window with neither gives Clear. The scan reads no byte
  outside the window and skips none inside it.
\<close>

theorem breakpoint_scan_window:
  "fst (TamperDetection_nativeBreakpointScan w s) \<longleftrightarrow>
     (\<exists>i < 4096. breakpoint_scan_text w i = 0xCC)
     \<or> (\<exists>i < 4093. load32 (breakpoint_scan_text w) i AND 0xFFF000F0 = 0xE1200070)"
proof -
  define m where "m = breakpoint_scan_text w"
  define hit where "hit = (\<lambda>j. load32 m j AND 0xFFF000F0 = 0xE1200070)"
  have lt: "\<And>i::nat. i < 4093 \<Longrightarrow> i < 4096" by simp
  have "breakpoint_loop m 4096 0 \<noteq> None \<longleftrightarrow>
     (\<exists>j. j < 4096 \<and> (m j = 0xCC \<or> (j < 4093 \<and> hit j)))"
    unfolding breakpoint_loop_None breakpoint_at_def hit_def by simp
  also have "\<dots> \<longleftrightarrow> (\<exists>i < 4096. m i = 0xCC) \<or> (\<exists>i < 4093. hit i)"
    using lt by blast
  finally show ?thesis
    by (simp only: breakpoint_scan_fst m_def hit_def)
qed

theorem breakpoint_scan_window_witness:
  "fst (TamperDetection_nativeBreakpointScan
          (quiet_world\<lparr>breakpoint_scan_text := last_byte_int3\<rparr>) fresh_proc)
   \<and> \<not> fst (TamperDetection_nativeBreakpointScan quiet_world fresh_proc)"
proof -
  have "load32 (\<lambda>i. 0) i AND 0xFFF000F0 \<noteq> 0xE1200070" for i
    by (simp add: load32_def)
  then have "\<not> fst (TamperDetection_nativeBreakpointScan quiet_world fresh_proc)"
    using breakpoint_scan_window [of quiet_world fresh_proc]
    by (simp add: quiet_world_def)
  moreover have "fst (TamperDetection_nativeBreakpointScan
          (quiet_world\<lparr>breakpoint_scan_text := last_byte_int3\<rparr>) fresh_proc)"
    using breakpoint_scan_window [of "quiet_world\<lparr>breakpoint_scan_text := last_byte_int3\<rparr>"
        fresh_proc]
    by (simp add: last_byte_int3_def)
  ultimately show ?thesis by simp
qed

section \<open>The detection flag\<close>

lemma flag_LOG:
  "debugger_detected (LOGI fmt args s) = debugger_detected s"
  "debugger_detected (LOGW fmt args s) = debugger_detected s"
  "debugger_detected (LOGE fmt args s) = debugger_detected s"
  by (simp_all add: LOGI_def LOGW_def LOGE_def)

lemma flag_kernel:
  "debugger_detected (snd (ptrace_traceme w s)) = debugger_detected s"
  "debugger_detected (ptrace_detach s) = debugger_detected s"
  "debugger_detected (snd (prctl_set_dumpable_0 w s)) = debugger_detected s"
  "debugger_detected (c_signal signum h s) = debugger_detected s"
  by (simp_all add: ptrace_traceme_def ptrace_detach_def prctl_set_dumpable_0_def c_signal_def
        Let_def split: option.splits sysret.splits)

lemma flag_tracer_pid_loop:
  "debugger_detected (snd (tracer_pid_loop ls s)) = debugger_detected s"
  by (induction ls) (simp_all add: Let_def flag_LOG)

lemma flag_maps_loop:
  "debugger_detected (snd (snd (maps_loop ls ec wec s))) = debugger_detected s"
  by (induction ls arbitrary: ec wec s) (simp_all add: flag_LOG)

lemma flag_nativePtraceCheck:
  "debugger_detected (snd (DebuggerDetection_nativePtraceCheck w s)) = debugger_detected s"
  using flag_kernel(1) [of w s]
  by (cases "ptrace_traceme w s")
     (auto simp: DebuggerDetection_nativePtraceCheck_def flag_LOG flag_kernel split: sysret.splits)

lemma flag_nativeSignalCheck:
  "debugger_detected (snd (DebuggerDetection_nativeSignalCheck s)) = debugger_detected s"
  by (simp add: DebuggerDetection_nativeSignalCheck_def Let_def flag_LOG flag_kernel)

lemma flag_nativeTimingCheck:
  "debugger_detected (snd (DebuggerDetection_nativeTimingCheck w s)) = debugger_detected s"
  by (simp add: DebuggerDetection_nativeTimingCheck_def Let_def flag_LOG)

lemma flag_nativeDebuggerCheck:
  "debugger_detected (snd (DebuggerDetection_nativeDebuggerCheck w s)) = debugger_detected s"
  by (simp add: DebuggerDetection_nativeDebuggerCheck_def flag_tracer_pid_loop split: option.splits)

lemma flag_nativeRootCheck:
  "debugger_detected (snd (RootDetection_nativeRootCheck w s)) = debugger_detected s"
  by (simp add: RootDetection_nativeRootCheck_def flag_LOG split: option.splits)

lemma flag_nativeHookCheck:
  "debugger_detected (snd (HookDetection_nativeHookCheck w s)) = debugger_detected s"
  by (simp add: HookDetection_nativeHookCheck_def flag_LOG split: option.splits)

lemma flag_nativeFridaCheck:
  "debugger_detected (snd (HookDetection_Companion_nativeFridaCheck w s)) = debugger_detected s"
  by (simp add: HookDetection_Companion_nativeFridaCheck_def flag_LOG split: option.splits)

lemma flag_nativeInlineHookCheck:
  "debugger_detected (snd (HookDetection_nativeInlineHookCheck w s)) = debugger_detected s"
  by (simp add: HookDetection_nativeInlineHookCheck_def Let_def flag_LOG)

lemma flag_nativeMemoryCheck:
  "debugger_detected (snd (TamperDetection_nativeMemoryCheck w s)) = debugger_detected s"
proof (cases "maps_file w")
  case None
  then show ?thesis by (simp add: TamperDetection_nativeMemoryCheck_def)
next
  case (Some content)
  obtain ec wec s1 where l: "maps_loop (fgets_lines 1024 content) 0 0 s = (ec, wec, s1)"
    by (cases "maps_loop (fgets_lines 1024 content) 0 0 s") auto
  with flag_maps_loop [of "fgets_lines 1024 content" 0 0 s]
  have "debugger_detected s1 = debugger_detected s" by simp
  with Some l show ?thesis
    by (simp add: TamperDetection_nativeMemoryCheck_def flag_LOG)
qed

lemma flag_nativeIntegrityCheck:
  "debugger_detected (snd (TamperDetection_nativeIntegrityCheck w s)) = debugger_detected s"
  using flag_kernel(3) [of w s]
  by (cases "prctl_set_dumpable_0 w s")
     (auto simp: TamperDetection_nativeIntegrityCheck_def flag_LOG split: sysret.splits)

lemma flag_nativeBreakpointScan:
  "debugger_detected (snd (TamperDetection_nativeBreakpointScan w s)) = debugger_detected s"
  by (simp add: TamperDetection_nativeBreakpointScan_def flag_LOG
        split: option.splits scan_hit.splits)

lemma flag_nativeHardenSystem:
  "debugger_detected (snd (RASP_nativeHardenSystem w s)) = debugger_detected s"
proof -
  obtain r s1 where p: "prctl_set_dumpable_0 w s = (r, s1)"
    by (cases "prctl_set_dumpable_0 w s") auto
  obtain r' s2 where t: "ptrace_traceme w s1 = (r', s2)"
    by (cases "ptrace_traceme w s1") auto
  have "debugger_detected s1 = debugger_detected s"
    using flag_kernel(3) [of w s] p by simp
  moreover have "debugger_detected s2 = debugger_detected s1"
    using flag_kernel(1) [of w s1] t by simp
  ultimately show ?thesis using p t
    by (simp add: RASP_nativeHardenSystem_def flag_LOG split: sysret.splits)
qed

lemma flag_nativeProtectMemory:
  "debugger_detected (snd (RASP_nativeProtectMemory w addr len s)) = debugger_detected s"
  by (simp add: RASP_nativeProtectMemory_def flag_LOG split: sysret.splits)

lemma flag_nativeRandomDelay:
  "debugger_detected (RASP_nativeRandomDelay w s) = debugger_detected s"
  by (simp add: RASP_nativeRandomDelay_def Let_def)

lemma flag_nativeAntiFork:
  "debugger_detected (snd (RASP_nativeAntiFork w s)) = debugger_detected s"
  by (simp add: RASP_nativeAntiFork_def flag_LOG split: fork_outcome.splits)

text \<open>One step: the flag becomes 1 in a handler that acts, and is left alone otherwise.\<close>

lemma flag_exec:
  "debugger_detected (exec w op s) = (if sets_flag op then 1 else debugger_detected s)"
  by (cases op)
     (simp_all add: sigtrap_handler_def sigstop_handler_def flag_LOG
        flag_nativePtraceCheck flag_nativeSignalCheck flag_nativeTimingCheck
        flag_nativeDebuggerCheck flag_nativeRootCheck RootDetection_nativePropertyCheck_def
        flag_nativeHookCheck flag_nativeFridaCheck HookDetection_Companion_nativeHookCheck_def
        HookDetection_Companion_nativeInlineHookCheck_def HookDetection_nativeFridaCheck_def
        flag_nativeInlineHookCheck flag_nativeMemoryCheck flag_nativeIntegrityCheck
        flag_nativeBreakpointScan flag_nativeHardenSystem flag_nativeProtectMemory
        flag_nativeRandomDelay flag_nativeAntiFork)

lemma flag_run:
  "debugger_detected (run evs s) =
     (if \<exists>e \<in> set evs. sets_flag (snd e) then 1 else debugger_detected s)"
proof (induction evs arbitrary: s)
  case Nil
  then show ?case by simp
next
  case (Cons e evs)
  obtain w op where e: "e = (w, op)" by (cases e) auto
  show ?case using Cons [of "exec w op s"] by (auto simp: e flag_exec)
qed

lemma run_append: "run (evs @ later) s = run later (run evs s)"
  by (induction evs arbitrary: s) auto

lemma signal_check_reads_flag:
  "fst (DebuggerDetection_nativeSignalCheck s) \<longleftrightarrow> debugger_detected s \<noteq> 0"
  by (simp add: DebuggerDetection_nativeSignalCheck_def Let_def flag_kernel)

text \<open>
  Claim C9. The detection flag is sticky. No function of native-lib.cpp, the only file
  that can name the flag, clears it: once it is nonzero it is nonzero after every
  further step. So once the signal-observation query has answered Suspicious it answers
  Suspicious after any further steps; and in a process that started with the flag
  unset, the query answers Suspicious exactly when some earlier step was a handler
  entered with a signal it acts on (trap for the one, stop or continue for the other),
  that is, when the flag has ever been set.
\<close>

theorem detection_flag_sticky:
  "(debugger_detected s \<noteq> 0 \<longrightarrow> debugger_detected (exec w op s) \<noteq> 0)
   \<and> (fst (DebuggerDetection_nativeSignalCheck (run evs s))
        \<longrightarrow> fst (DebuggerDetection_nativeSignalCheck (run (evs @ later) s)))
   \<and> (debugger_detected s = 0 \<longrightarrow>
        (fst (DebuggerDetection_nativeSignalCheck (run evs s))
          \<longleftrightarrow> (\<exists>e \<in> set evs. sets_flag (snd e))))"
  by (simp add: signal_check_reads_flag flag_exec flag_run run_append)

theorem detection_flag_sticky_witness:
  "debugger_detected fresh_proc = 0
   \<and> \<not> fst (DebuggerDetection_nativeSignalCheck
              (run [(quiet_world, Op_nativeSignalCheck), (quiet_world, Op_nativeHookCheck)]
                 fresh_proc))
   \<and> fst (DebuggerDetection_nativeSignalCheck
            (run [(quiet_world, Op_nativeSignalCheck), (quiet_world, Op_sigtrap_handler SIGTRAP)]
               fresh_proc))
   \<and> fst (DebuggerDetection_nativeSignalCheck
            (run ([(quiet_world, Op_nativeSignalCheck), (quiet_world, Op_sigtrap_handler SIGTRAP)]
                  @ [(quiet_world, Op_nativeHardenSystem), (quiet_world, Op_nativeSignalCheck)])
               fresh_proc))"
proof -
  have z: "debugger_detected fresh_proc = 0" by (simp add: fresh_proc_def)
  show ?thesis
    using z
      detection_flag_sticky [of fresh_proc quiet_world Op_nativeSignalCheck
        "[(quiet_world, Op_nativeSignalCheck), (quiet_world, Op_nativeHookCheck)]" "[]"]
      detection_flag_sticky [of fresh_proc quiet_world Op_nativeSignalCheck
        "[(quiet_world, Op_nativeSignalCheck), (quiet_world, Op_sigtrap_handler SIGTRAP)]"
        "[(quiet_world, Op_nativeHardenSystem), (quiet_world, Op_nativeSignalCheck)]"]
    by simp
qed


section \<open>The trace-self request\<close>

lemma traceme_fails: "fst (ptrace_traceme w s) \<noteq> Ok \<longleftrightarrow> traced s \<or> traceme_refusal w \<noteq> None"
  by (auto simp: ptrace_traceme_def Let_def split: option.splits)

lemma traceme_calls:
  "ptrace_calls (snd (ptrace_traceme w s)) = ptrace_calls s @ [PTRACE_TRACEME]"
  by (simp add: ptrace_traceme_def Let_def split: option.splits)

lemma traceme_traced:
  "traced (snd (ptrace_traceme w s)) \<longleftrightarrow> traced s \<or> traceme_refusal w = None"
  by (simp add: ptrace_traceme_def Let_def split: option.splits)

text \<open>
  The probe issues the detach unless the trace-self request met permission-denied; the
  process is traced afterwards when it was before or when the kernel granted the
  request.
\<close>

lemma nativePtraceCheck_calls:
  "ptrace_calls (snd (DebuggerDetection_nativePtraceCheck w s)) =
     ptrace_calls s @
       (if fst (ptrace_traceme w s) = Fail EPERM then [PTRACE_TRACEME]
        else [PTRACE_TRACEME, PTRACE_DETACH])"
  by (auto simp: DebuggerDetection_nativePtraceCheck_def ptrace_traceme_def ptrace_detach_def
        LOGW_def Let_def split: option.splits)

lemma nativePtraceCheck_traced:
  "traced (snd (DebuggerDetection_nativePtraceCheck w s))
     \<longleftrightarrow> traced s \<or> traceme_refusal w = None"
  by (auto simp: DebuggerDetection_nativePtraceCheck_def ptrace_traceme_def ptrace_detach_def
        LOGW_def Let_def split: option.splits)

lemma nativePtraceCheck_fst:
  "fst (DebuggerDetection_nativePtraceCheck w s)
     \<longleftrightarrow> traced s \<or> traceme_refusal w = Some EPERM"
  by (auto simp: DebuggerDetection_nativePtraceCheck_def ptrace_traceme_def ptrace_detach_def
        LOGW_def Let_def split: option.splits)


section \<open>The obfuscated check\<close>

text \<open>The opaque predicates and the dead code only advance the clock.\<close>

lemma opaque_true_eq: "opaque_true w s = (True, s\<lparr>clock_reads := Suc (clock_reads s)\<rparr>)"
  by (auto simp: opaque_true_def now_count_def)

lemma opaque_false_eq:
  "opaque_false w s = (hr_clock w (clock_reads s) < 0, s\<lparr>clock_reads := Suc (clock_reads s)\<rparr>)"
  by (simp add: opaque_false_def now_count_def)

lemma inject_dead_code_eq: "inject_dead_code w s = s\<lparr>clock_reads := Suc (clock_reads s)\<rparr>"
  by (simp add: inject_dead_code_def opaque_false_eq)

lemma scramble_memory_eq:
  "NativeStringEncryptor_scramble_memory w s =
     s\<lparr>clock_reads := (if hr_clock w (clock_reads s) < 0 then Suc (Suc (clock_reads s))
                         else Suc (clock_reads s))\<rparr>"
  by (simp add: NativeStringEncryptor_scramble_memory_def opaque_false_eq now_count_def)

lemma obf_case_0_fst: "fst (obf_case_0 w s) \<longleftrightarrow> traced s \<or> traceme_refusal w \<noteq> None"
  by (cases "ptrace_traceme w (s\<lparr>clock_reads := Suc (clock_reads s)\<rparr>)")
     (use traceme_fails [of w "s\<lparr>clock_reads := Suc (clock_reads s)\<rparr>"] in
       \<open>simp add: obf_case_0_def opaque_true_eq\<close>)

lemma obf_case_0_state:
  "traced (snd (obf_case_0 w s)) \<longleftrightarrow> traced s \<or> traceme_refusal w = None"
  "ptrace_calls (snd (obf_case_0 w s)) = ptrace_calls s @ [PTRACE_TRACEME, PTRACE_DETACH]"
  using traceme_calls [of w "s\<lparr>clock_reads := Suc (clock_reads s)\<rparr>"]
        traceme_traced [of w "s\<lparr>clock_reads := Suc (clock_reads s)\<rparr>"]
  by (cases "ptrace_traceme w (s\<lparr>clock_reads := Suc (clock_reads s)\<rparr>)";
      simp add: obf_case_0_def opaque_true_eq inject_dead_code_eq ptrace_detach_def)+

lemma obf_case_1_fst:
  "fst (obf_case_1 w s) =
     (case status_file w of
        None \<Rightarrow> False
      | Some content \<Rightarrow> obf_status_loop (uninit_pid w) 0 (fgets_lines 256 content))"
  by (simp add: obf_case_1_def opaque_true_eq Let_def)

lemma obf_case_1_state:
  "traced (snd (obf_case_1 w s)) = traced s"
  "ptrace_calls (snd (obf_case_1 w s)) = ptrace_calls s"
  by (simp_all add: obf_case_1_def opaque_true_eq Let_def inject_dead_code_eq)

lemma obf_default_fst:
  "fst (obf_default w s) \<longleftrightarrow> getenv w ''DEBUG'' \<noteq> None \<or> getenv w ''ANDROID_DEBUG'' \<noteq> None"
  by (simp add: obf_default_def opaque_true_eq Let_def)

lemma obf_default_state:
  "traced (snd (obf_default w s)) = traced s"
  "ptrace_calls (snd (obf_default w s)) = ptrace_calls s"
  by (simp_all add: obf_default_def opaque_true_eq Let_def inject_dead_code_eq)

text \<open>The switch is on the branch selector.\<close>

lemma check_debugger_obfuscated_unfold:
  "check_debugger_obfuscated w s =
     (let s2 = s\<lparr>clock_reads := Suc (Suc (clock_reads s))\<rparr>;
          r = (if branch_selector w s = 0 then obf_case_0 w s2
               else if branch_selector w s = 1 then obf_case_1 w s2
               else obf_default w s2)
      in (fst r, inject_dead_code w (snd r)))"
  by (simp add: check_debugger_obfuscated_def inject_dead_code_eq now_count_def Let_def
        branch_selector_def split: prod.splits)

lemma check_debugger_obfuscated_fst:
  "fst (check_debugger_obfuscated w s) =
     (if branch_selector w s = 0 then traced s \<or> traceme_refusal w \<noteq> None
      else if branch_selector w s = 1 then
        (case status_file w of
           None \<Rightarrow> False
         | Some content \<Rightarrow> obf_status_loop (uninit_pid w) 0 (fgets_lines 256 content))
      else getenv w ''DEBUG'' \<noteq> None \<or> getenv w ''ANDROID_DEBUG'' \<noteq> None)"
  by (simp add: check_debugger_obfuscated_unfold Let_def
        obf_case_0_fst obf_case_1_fst obf_default_fst)

lemma check_debugger_obfuscated_calls:
  "ptrace_calls (snd (check_debugger_obfuscated w s)) =
     ptrace_calls s @ (if branch_selector w s = 0 then [PTRACE_TRACEME, PTRACE_DETACH] else [])"
  by (simp add: check_debugger_obfuscated_unfold Let_def inject_dead_code_eq
        obf_case_0_state obf_case_1_state obf_default_state)

lemma check_debugger_obfuscated_traced:
  "traced (snd (check_debugger_obfuscated w s))
     \<longleftrightarrow> traced s \<or> (branch_selector w s = 0 \<and> traceme_refusal w = None)"
  by (simp add: check_debugger_obfuscated_unfold Let_def inject_dead_code_eq
        obf_case_0_state obf_case_1_state obf_default_state)

text \<open>
  When \<open>sscanf\<close> stores a value at every line that holds the key, the loop of the
  status branch never reads the uninitialised \<open>pid\<close>.
\<close>

lemma obf_status_loop_stored:
  "list_all (\<lambda>line. strstr (cstr line) ''TracerPid:'' \<longrightarrow> sscanf_TracerPid (cstr line) \<noteq> None) ls
     \<Longrightarrow> obf_status_loop junk k ls = obf_status_loop junk' k' ls"
  by (induction ls arbitrary: k k') (auto simp: Let_def)

text \<open>
  The JNI entry reads the clock three times, enters the check, and returns its result
  when no reading of the clock is negative.
\<close>

lemma NativeObfuscator_a_fst:
  assumes "\<forall>k. 0 \<le> hr_clock w k"
  shows "fst (NativeObfuscator_a w s) =
     fst (check_debugger_obfuscated w (s\<lparr>clock_reads := clock_reads s + 3\<rparr>))"
proof -
  define s3 where "s3 = s\<lparr>clock_reads := Suc (Suc (Suc (clock_reads s)))\<rparr>"
  obtain r s4 where c: "check_debugger_obfuscated w s3 = (r, s4)"
    by (cases "check_debugger_obfuscated w s3") auto
  have nf: "\<And>k. \<not> hr_clock w k < 0"
    using assms by (simp add: not_less)
  have e: "clock_reads s + 3 = Suc (Suc (Suc (clock_reads s)))" by simp
  have "fst (NativeObfuscator_a w s) = r"
    using c by (simp add: NativeObfuscator_a_def inject_dead_code_eq scramble_memory_eq
        opaque_true_eq opaque_false_eq Let_def s3_def nf)
  with c show ?thesis
    unfolding e by (simp add: s3_def)
qed

text \<open>
  Claim C1. Both self-ptrace probes issue the detach request after a trace-self request
  that succeeded (the detector's probe also after one that failed for a reason other
  than permission-denied, the obfuscated check after any), as the claim says. The
  request does not restore the state, though: in a process that is not traced and
  whose trace-self request the kernel grants, the detach changes nothing, the process
  is traced when the probe returns, and the next call of the probe answers Suspicious.
\<close>

theorem self_ptrace_probe_leaves_traced:
  "\<not> traced fresh_proc
   \<and> fst (ptrace_traceme quiet_world fresh_proc) = Ok
   \<and> ptrace_calls (snd (DebuggerDetection_nativePtraceCheck quiet_world fresh_proc)) =
       [PTRACE_TRACEME, PTRACE_DETACH]
   \<and> \<not> fst (DebuggerDetection_nativePtraceCheck quiet_world fresh_proc)
   \<and> traced (snd (DebuggerDetection_nativePtraceCheck quiet_world fresh_proc))
   \<and> fst (DebuggerDetection_nativePtraceCheck quiet_world
            (snd (DebuggerDetection_nativePtraceCheck quiet_world fresh_proc)))
   \<and> branch_selector quiet_world fresh_proc = 0
   \<and> ptrace_calls (snd (check_debugger_obfuscated quiet_world fresh_proc)) =
       [PTRACE_TRACEME, PTRACE_DETACH]
   \<and> traced (snd (check_debugger_obfuscated quiet_world fresh_proc))"
proof -
  have b: "branch_selector quiet_world fresh_proc = 0"
    by (simp add: branch_selector_def quiet_world_def c_rem_def)
  have t: "fst (ptrace_traceme quiet_world fresh_proc) = Ok"
    by (simp add: ptrace_traceme_def quiet_world_def fresh_proc_def Let_def)
  have f: "\<not> traced fresh_proc" "ptrace_calls fresh_proc = []"
          "traceme_refusal quiet_world = None"
    by (simp_all add: fresh_proc_def quiet_world_def)
  from b t f show ?thesis
    by (simp add: nativePtraceCheck_calls nativePtraceCheck_traced nativePtraceCheck_fst
          check_debugger_obfuscated_calls check_debugger_obfuscated_traced)
qed

text \<open>
  Claim C4, as amended. For a fixed environment state (the same status file, the same
  environment variables, the same outcome of a trace-self request) in which every line
  read from the status file that holds the key \<open>TracerPid:\<close> starts with it and has an
  integer after it, the obfuscated check returns the same result in any two runs in
  which the clock-derived branch selector has the same value: the clock enters the
  result through the selector only, whatever the opaque predicates and the dead code
  read, and the uninitialised local is never read. The same holds for the JNI entry
  \<open>NativeObfuscator_a\<close>, which enters the check after three readings of the clock,
  when no reading is negative.
\<close>

theorem obfuscated_check_branch:
  assumes "same_environment w s w' s'"
      and "tracer_lines_scan (status_file w)"
  shows "(branch_selector w s = branch_selector w' s' \<longrightarrow>
            fst (check_debugger_obfuscated w s) = fst (check_debugger_obfuscated w' s'))
       \<and> ((\<forall>k. 0 \<le> hr_clock w k) \<and> (\<forall>k. 0 \<le> hr_clock w' k)
            \<and> branch_selector w (s\<lparr>clock_reads := clock_reads s + 3\<rparr>)
                  = branch_selector w' (s'\<lparr>clock_reads := clock_reads s' + 3\<rparr>) \<longrightarrow>
            fst (NativeObfuscator_a w s) = fst (NativeObfuscator_a w' s'))"
proof -
  from assms(1) have env: "status_file w = status_file w'" "getenv w = getenv w'"
    "traceme_refusal w = traceme_refusal w'" "traced s = traced s'"
    by (simp_all add: same_environment_def)
  have loop: "obf_status_loop (uninit_pid w) 0 (fgets_lines 256 content)
      = obf_status_loop (uninit_pid w') 0 (fgets_lines 256 content)"
    if "status_file w = Some content" for content
    using assms(2) that by (intro obf_status_loop_stored) (simp add: tracer_lines_scan_def)
  have status: "(case status_file w of None \<Rightarrow> False
        | Some content \<Rightarrow> obf_status_loop (uninit_pid w) 0 (fgets_lines 256 content))
      = (case status_file w' of None \<Rightarrow> False
        | Some content \<Rightarrow> obf_status_loop (uninit_pid w') 0 (fgets_lines 256 content))"
  proof (cases "status_file w")
    case None
    with env(1) show ?thesis by simp
  next
    case (Some content)
    from loop [OF Some] Some env(1) [symmetric] show ?thesis by simp
  qed
  have same: "fst (check_debugger_obfuscated w t) = fst (check_debugger_obfuscated w' t')"
    if "branch_selector w t = branch_selector w' t'" "traced t = traced t'" for t t'
    using that status env(2,3) by (simp add: check_debugger_obfuscated_fst)
  have 1: "branch_selector w s = branch_selector w' s' \<longrightarrow>
            fst (check_debugger_obfuscated w s) = fst (check_debugger_obfuscated w' s')"
    using same [of s s'] env(4) by simp
  have 2: "(\<forall>k. 0 \<le> hr_clock w k) \<and> (\<forall>k. 0 \<le> hr_clock w' k)
            \<and> branch_selector w (s\<lparr>clock_reads := clock_reads s + 3\<rparr>)
                  = branch_selector w' (s'\<lparr>clock_reads := clock_reads s' + 3\<rparr>) \<longrightarrow>
            fst (NativeObfuscator_a w s) = fst (NativeObfuscator_a w' s')"
  proof (intro impI, elim conjE)
    assume n: "\<forall>k. 0 \<le> hr_clock w k" and n': "\<forall>k. 0 \<le> hr_clock w' k"
      and b: "branch_selector w (s\<lparr>clock_reads := clock_reads s + 3\<rparr>)
                  = branch_selector w' (s'\<lparr>clock_reads := clock_reads s' + 3\<rparr>)"
    have "fst (check_debugger_obfuscated w (s\<lparr>clock_reads := clock_reads s + 3\<rparr>))
        = fst (check_debugger_obfuscated w' (s'\<lparr>clock_reads := clock_reads s' + 3\<rparr>))"
      using b env(4) by (intro same) simp_all
    then show "fst (NativeObfuscator_a w s) = fst (NativeObfuscator_a w' s')"
      by (simp only: NativeObfuscator_a_fst [OF n] NativeObfuscator_a_fst [OF n'])
  qed
  from 1 2 show ?thesis by (rule conjI)
qed

lemma status_loop_examples:
  "tracer_lines_scan (Some traced_status)"
  "tracer_lines_scan (Some quiet_status)"
  "obf_status_loop (slot_holding 0) 0 (fgets_lines 256 traced_status)"
  "\<not> obf_status_loop (slot_holding 0) 0 (fgets_lines 256 named_tracer_status)"
  "obf_status_loop (slot_holding 7) 0 (fgets_lines 256 named_tracer_status)"
  by code_simp+

lemma c_rem_3_examples:
  "c_rem 0 3 = 0" "c_rem 3 3 = 0" "c_rem 1 3 = 1" "c_rem 4 3 = 1" "c_rem 2 3 = 2" "c_rem 8 3 = 2"
  by (simp_all add: c_rem_def)

theorem obfuscated_check_branch_witness:
  "same_environment (quiet_world\<lparr>status_file := Some traced_status, hr_clock := clock_at 1\<rparr>)
       fresh_proc
       (quiet_world\<lparr>status_file := Some traced_status, hr_clock := clock_at 4,
                     uninit_pid := slot_holding 7\<rparr>)
       fresh_proc
   \<and> tracer_lines_scan (Some traced_status)
   \<and> fst (check_debugger_obfuscated
            (quiet_world\<lparr>status_file := Some traced_status, hr_clock := clock_at 1\<rparr>) fresh_proc)
   \<and> fst (check_debugger_obfuscated
            (quiet_world\<lparr>status_file := Some traced_status, hr_clock := clock_at 4,
                          uninit_pid := slot_holding 7\<rparr>) fresh_proc)
   \<and> \<not> fst (check_debugger_obfuscated (quiet_world\<lparr>hr_clock := clock_at 0\<rparr>) fresh_proc)
   \<and> \<not> fst (check_debugger_obfuscated (quiet_world\<lparr>hr_clock := clock_at 3\<rparr>) fresh_proc)
   \<and> fst (check_debugger_obfuscated
            (quiet_world\<lparr>getenv := debug_env, hr_clock := clock_at 2\<rparr>) fresh_proc)
   \<and> fst (check_debugger_obfuscated
            (quiet_world\<lparr>getenv := debug_env, hr_clock := clock_at 8\<rparr>) fresh_proc)
   \<and> fst (NativeObfuscator_a
            (quiet_world\<lparr>getenv := debug_env, hr_clock := clock_at 2\<rparr>) fresh_proc)
   \<and> fst (NativeObfuscator_a
            (quiet_world\<lparr>getenv := debug_env, hr_clock := clock_at 8\<rparr>) fresh_proc)"
proof -
  let ?a1 = "quiet_world\<lparr>status_file := Some traced_status, hr_clock := clock_at 1\<rparr>"
  let ?a4 = "quiet_world\<lparr>status_file := Some traced_status, hr_clock := clock_at 4,
                          uninit_pid := slot_holding 7\<rparr>"
  let ?b0 = "quiet_world\<lparr>hr_clock := clock_at 0\<rparr>"
  let ?b3 = "quiet_world\<lparr>hr_clock := clock_at 3\<rparr>"
  let ?d2 = "quiet_world\<lparr>getenv := debug_env, hr_clock := clock_at 2\<rparr>"
  let ?d8 = "quiet_world\<lparr>getenv := debug_env, hr_clock := clock_at 8\<rparr>"
  have q: "uninit_pid quiet_world = slot_holding 0" "status_file quiet_world = Some quiet_status"
          "traceme_refusal quiet_world = None" "\<not> traced fresh_proc"
    by (simp_all add: quiet_world_def slot_holding_def fresh_proc_def fun_eq_iff)
  have sel: "branch_selector (w\<lparr>hr_clock := clock_at t\<rparr>) s = c_rem t 3" for w t s
    by (simp add: branch_selector_def clock_at_def)
  have sel': "branch_selector (w\<lparr>hr_clock := clock_at t, uninit_pid := j\<rparr>) s = c_rem t 3"
    for w t s j
    by (simp add: branch_selector_def clock_at_def)
  have nonneg: "\<forall>k. 0 \<le> hr_clock ?d2 k" "\<forall>k. 0 \<le> hr_clock ?d8 k"
    by (simp_all add: clock_at_def)
  have ea: "same_environment ?a1 fresh_proc ?a4 fresh_proc"
    and eb: "same_environment ?b0 fresh_proc ?b3 fresh_proc"
    and ed: "same_environment ?d2 fresh_proc ?d8 fresh_proc"
    by (simp_all add: same_environment_def)
  have a1: "fst (check_debugger_obfuscated ?a1 fresh_proc)"
    by (simp add: check_debugger_obfuscated_fst sel c_rem_3_examples q status_loop_examples)
  have b0: "\<not> fst (check_debugger_obfuscated ?b0 fresh_proc)"
    by (simp add: check_debugger_obfuscated_fst sel c_rem_3_examples q)
  have d2: "fst (check_debugger_obfuscated ?d2 fresh_proc)"
    by (simp add: check_debugger_obfuscated_fst sel c_rem_3_examples debug_env_def)
  have j2: "fst (NativeObfuscator_a ?d2 fresh_proc)"
    by (simp add: NativeObfuscator_a_fst [OF nonneg(1)] check_debugger_obfuscated_fst sel
          c_rem_3_examples debug_env_def)
  have "fst (check_debugger_obfuscated ?a1 fresh_proc) = fst (check_debugger_obfuscated ?a4 fresh_proc)"
    by (rule obfuscated_check_branch [OF ea, THEN conjunct1, THEN mp])
       (simp_all add: status_loop_examples sel sel' c_rem_3_examples)
  with a1 have a4: "fst (check_debugger_obfuscated ?a4 fresh_proc)" by simp
  have "fst (check_debugger_obfuscated ?b0 fresh_proc) = fst (check_debugger_obfuscated ?b3 fresh_proc)"
    by (rule obfuscated_check_branch [OF eb, THEN conjunct1, THEN mp])
       (simp_all add: q status_loop_examples sel c_rem_3_examples)
  with b0 have b3: "\<not> fst (check_debugger_obfuscated ?b3 fresh_proc)" by simp
  have "fst (check_debugger_obfuscated ?d2 fresh_proc) = fst (check_debugger_obfuscated ?d8 fresh_proc)"
    by (rule obfuscated_check_branch [OF ed, THEN conjunct1, THEN mp])
       (simp_all add: q status_loop_examples sel c_rem_3_examples)
  with d2 have d8: "fst (check_debugger_obfuscated ?d8 fresh_proc)" by simp
  have "fst (NativeObfuscator_a ?d2 fresh_proc) = fst (NativeObfuscator_a ?d8 fresh_proc)"
    by (rule obfuscated_check_branch [OF ed, THEN conjunct2, THEN mp])
       (simp_all add: q status_loop_examples sel c_rem_3_examples clock_at_def)
  with j2 have j8: "fst (NativeObfuscator_a ?d8 fresh_proc)" by simp
  from ea status_loop_examples(1) a1 a4 b0 b3 d2 d8 j2 j8 show ?thesis by simp
qed

text \<open>
  The claim as stated fails. With the same status file, the same ptrace outcome and
  \<open>DEBUG\<close> set, the check answers Clear when the clock selects the ptrace branch and
  Suspicious when it selects the environment branch. And with the same environment and
  the same selector, in a process that is named \<open>TracerPid:\<close>, the status branch
  answers by what the uninitialised local holds: Clear for 0, Suspicious for 7.
\<close>

theorem obfuscated_check_depends_on_branch:
  "fst (check_debugger_obfuscated (quiet_world\<lparr>getenv := debug_env, hr_clock := clock_at 0\<rparr>)
          fresh_proc)
     \<noteq> fst (check_debugger_obfuscated (quiet_world\<lparr>getenv := debug_env, hr_clock := clock_at 2\<rparr>)
              fresh_proc)
   \<and> fst (check_debugger_obfuscated
            (quiet_world\<lparr>status_file := Some named_tracer_status, hr_clock := clock_at 1,
                          uninit_pid := slot_holding 0\<rparr>) fresh_proc)
     \<noteq> fst (check_debugger_obfuscated
            (quiet_world\<lparr>status_file := Some named_tracer_status, hr_clock := clock_at 1,
                          uninit_pid := slot_holding 7\<rparr>) fresh_proc)"
proof -
  have sel: "branch_selector (w\<lparr>hr_clock := clock_at t\<rparr>) s = c_rem t 3" for w t s
    by (simp add: branch_selector_def clock_at_def)
  have sel': "branch_selector (w\<lparr>hr_clock := clock_at t, uninit_pid := j\<rparr>) s = c_rem t 3"
    for w t s j
    by (simp add: branch_selector_def clock_at_def)
  have q: "traceme_refusal quiet_world = None" "\<not> traced fresh_proc"
    by (simp_all add: quiet_world_def fresh_proc_def)
  show ?thesis
    by (simp add: check_debugger_obfuscated_fst sel sel' c_rem_3_examples q debug_env_def
          status_loop_examples)
qed


section \<open>The hardening operation\<close>



end
